theory Spec2Isabelle
  imports Complex_Main "HOL-Library.Word" "HOL-Library.Sublist" "HOL-Library.AList"
begin

section \<open>Data model of the tree-billboards application\<close>

text \<open>
  The definitions follow \<^verbatim>\<open>Week7-2-TreeBillboardsApp.cpp\<close>. Scalars of type
  \<^verbatim>\<open>float\<close> are values of a type parameter \<open>'f\<close> with whatever addition,
  subtraction, multiplication and order the instance has, so that nothing proved below
  depends on how floating-point arithmetic rounds. A literal or an integer converted to
  \<^verbatim>\<open>float\<close> is written \<open>flt q\<close>, for a parameter \<open>flt\<close> that gives the
  \<open>'f\<close> value of the rational \<open>q\<close>. A 4x4 matrix \<open>M\<close> is the function of its
  entries, \<open>M r c\<close> for \<^verbatim>\<open>M(r, c)\<close> with \<open>r\<close> and \<open>c\<close> below 4.
  The matrix functions of DirectXMath have their documented meaning.
\<close>

type_synonym 'f XMFLOAT4X4 = "nat \<Rightarrow> nat \<Rightarrow> 'f"

definition Identity4x4 :: "(rat \<Rightarrow> 'f) \<Rightarrow> 'f XMFLOAT4X4" where
  "Identity4x4 flt = (\<lambda>r c. if r = c then flt 1 else flt 0)"

definition XMMatrixScaling :: "(rat \<Rightarrow> 'f) \<Rightarrow> 'f \<Rightarrow> 'f \<Rightarrow> 'f \<Rightarrow> 'f XMFLOAT4X4" where
  "XMMatrixScaling flt sx sy sz =
     (\<lambda>r c. if r \<noteq> c then flt 0
            else if r = 0 then sx else if r = 1 then sy else if r = 2 then sz else flt 1)"

definition XMMatrixTranslation :: "(rat \<Rightarrow> 'f) \<Rightarrow> 'f \<Rightarrow> 'f \<Rightarrow> 'f \<Rightarrow> 'f XMFLOAT4X4" where
  "XMMatrixTranslation flt x y z =
     (\<lambda>r c. if r = 3 \<and> c = 0 then x else if r = 3 \<and> c = 1 then y
            else if r = 3 \<and> c = 2 then z else if r = c then flt 1 else flt 0)"

definition XMMatrixMultiply :: "('f::{plus,times}) XMFLOAT4X4 \<Rightarrow> 'f XMFLOAT4X4 \<Rightarrow> 'f XMFLOAT4X4" where
  "XMMatrixMultiply A B = (\<lambda>r c. A r 0 * B 0 c + A r 1 * B 1 c + A r 2 * B 2 c + A r 3 * B 3 c)"

definition XMMatrixTranspose :: "'f XMFLOAT4X4 \<Rightarrow> 'f XMFLOAT4X4" where
  "XMMatrixTranspose M = (\<lambda>r c. M c r)"

definition gNumFrameResources :: nat where
  "gNumFrameResources = 3"

record 'f ObjectConstants =
  oc_World :: "'f XMFLOAT4X4"
  oc_TexTransform :: "'f XMFLOAT4X4"

record 'f MaterialConstants =
  mc_DiffuseAlbedo :: "'f \<times> 'f \<times> 'f \<times> 'f"
  mc_FresnelR0 :: "'f \<times> 'f \<times> 'f"
  mc_Roughness :: 'f
  mc_MatTransform :: "'f XMFLOAT4X4"

text \<open>
  Modelled from the spec: the class \<^verbatim>\<open>FrameResource\<close> (\<^verbatim>\<open>FrameResource.h\<close> is not
  among the sources). One slot of the ring owns an object-constant array whose capacity
  is the object count it was built with, a material-constant array whose capacity is the
  material count, a pass-constant buffer, a dynamic vertex buffer for the waves, and the
  fence value that the GPU must reach before the slot is reused, 0 in a new slot. An
  element of an upload buffer that was never written is \<open>None\<close>. The fence counter is
  the spec's monotonically increasing counter, a natural number.
\<close>

record 'f FrameResource =
  PassCBCount :: nat
  ObjectCB :: "'f ObjectConstants option list"
  MaterialCB :: "'f MaterialConstants option list"
  WavesVBCount :: nat
  Fence :: nat

definition new_FrameResource :: "nat \<Rightarrow> nat \<Rightarrow> nat \<Rightarrow> nat \<Rightarrow> 'f FrameResource" where
  "new_FrameResource passCount objectCount materialCount waveVertCount =
     \<lparr>PassCBCount = passCount,
      ObjectCB = replicate objectCount None,
      MaterialCB = replicate materialCount None,
      WavesVBCount = waveVertCount,
      Fence = 0\<rparr>"

section \<open>Frame scheduler: the fence members of Update and Draw\<close>

text \<open>
  The members that pace the CPU against the GPU. \<open>mCurrFrameResourceIndex\<close> is an
  \<^verbatim>\<open>int\<close> in the source that starts at 0 and only ever holds a remainder modulo 3, so
  it is a natural number here, and \<^verbatim>\<open>mCurrFrameResource\<close> is the slot at that index.
  \<open>mFence\<close> is the completed value of the fence object
  (\<^verbatim>\<open>mFence->GetCompletedValue()\<close>) and \<open>mCommandQueue\<close> holds the values of the
  \<^verbatim>\<open>Signal\<close> instructions the GPU has not reached yet, oldest first.
\<close>

record 'f FrameSync =
  mFrameResources :: "'f FrameResource list"
  mCurrFrameResourceIndex :: nat
  mCurrentFence :: nat
  mFence :: nat
  mCommandQueue :: "nat list"

definition mCurrFrameResource :: "'f FrameSync \<Rightarrow> 'f FrameResource" where
  "mCurrFrameResource s = mFrameResources s ! mCurrFrameResourceIndex s"

text \<open>Update, lines 254-256: cycle through the circular frame resource array.\<close>

definition CycleFrameResource :: "'f FrameSync \<Rightarrow> 'f FrameSync" where
  "CycleFrameResource s =
     s\<lparr>mCurrFrameResourceIndex := (mCurrFrameResourceIndex s + 1) mod gNumFrameResources\<rparr>"

text \<open>Update, line 260: the condition under which the CPU waits.\<close>

definition MustWait :: "'f FrameSync \<Rightarrow> bool" where
  "MustWait s = (Fence (mCurrFrameResource s) \<noteq> 0 \<and> mFence s < Fence (mCurrFrameResource s))"

text \<open>
  The GPU reaches the next \<^verbatim>\<open>Signal\<close> of its queue and sets the fence to its value.
\<close>

definition GpuSignal :: "'f FrameSync \<Rightarrow> 'f FrameSync" where
  "GpuSignal s = (case mCommandQueue s of
       [] \<Rightarrow> s
     | v # q \<Rightarrow> s\<lparr>mFence := v, mCommandQueue := q\<rparr>)"

text \<open>
  Update, lines 262-265: \<^verbatim>\<open>SetEventOnCompletion\<close> and an infinite
  \<^verbatim>\<open>WaitForSingleObject\<close>. The wait ends as soon as the fence has reached the target;
  when the queue holds no signal that reaches it, the wait never ends (\<open>None\<close>).
\<close>

fun WaitForFence :: "nat \<Rightarrow> nat \<Rightarrow> nat list \<Rightarrow> (nat \<times> nat list) option" where
  "WaitForFence target c [] = (if c < target then None else Some (c, []))"
| "WaitForFence target c (v # q) =
     (if c < target then WaitForFence target v q else Some (c, v # q))"

text \<open>Update, lines 254-266.\<close>

definition Update :: "'f FrameSync \<Rightarrow> 'f FrameSync option" where
  "Update s0 =
     (let s = CycleFrameResource s0 in
      if MustWait s then
        (case WaitForFence (Fence (mCurrFrameResource s)) (mFence s) (mCommandQueue s) of
           None \<Rightarrow> None
         | Some (c, q) \<Rightarrow> Some (s\<lparr>mFence := c, mCommandQueue := q\<rparr>))
      else Some s)"

text \<open>
  Draw, lines 335-341: \<^verbatim>\<open>mCurrFrameResource->Fence = ++mCurrentFence\<close>, then
  \<^verbatim>\<open>Signal\<close> with the new value is appended to the command queue.
\<close>

definition Draw :: "'f FrameSync \<Rightarrow> 'f FrameSync" where
  "Draw s =
     (let f = mCurrentFence s + 1;
          i = mCurrFrameResourceIndex s in
      s\<lparr>mCurrentFence := f,
        mFrameResources := (mFrameResources s)[i := (mFrameResources s ! i)\<lparr>Fence := f\<rparr>],
        mCommandQueue := mCommandQueue s @ [f]\<rparr>)"

subsection \<open>The Update/Draw step relation, interleaved with the GPU\<close>

text \<open>
  The CPU alternates Update and Draw, and the GPU works through its queue at any pace
  between them; during the wait inside Update it is the GPU that advances. Beside the
  state, the relation keeps the list of submissions. Every Draw submits a command list
  that reads the buffers of the current frame resource (lines 277-329: its command
  allocator and its pass, object and material constant buffers) and is followed by the
  Signal of the new fence value: the submission is the pair of the slot and that value.
  A submission is in flight while its Signal is still in the queue, that is, while the
  GPU has not completed its commands.
\<close>

datatype cpu_phase = BetweenFrames | Writing

definition in_flight :: "'f FrameSync \<Rightarrow> (nat \<times> nat) list \<Rightarrow> (nat \<times> nat) list" where
  "in_flight s submitted = drop (length submitted - length (mCommandQueue s)) submitted"

inductive frame_step ::
  "cpu_phase \<times> 'f FrameSync \<times> (nat \<times> nat) list \<Rightarrow> cpu_phase \<times> 'f FrameSync \<times> (nat \<times> nat) list \<Rightarrow> bool" where
  update: "Update s = Some s' \<Longrightarrow> frame_step (BetweenFrames, s, h) (Writing, s', h)"
| draw: "frame_step (Writing, s, h)
           (BetweenFrames, Draw s, h @ [(mCurrFrameResourceIndex s, mCurrentFence s + 1)])"
| gpu: "mCommandQueue s \<noteq> [] \<Longrightarrow> frame_step (p, s, h) (p, GpuSignal s, h)"

text \<open>
  The state after BuildFrameResources and the flush that ends Initialize: three slots
  with fence 0, ring index 0, nothing pending on the GPU, nothing submitted.
\<close>

definition initial :: "'f FrameSync \<Rightarrow> bool" where
  "initial s = (length (mFrameResources s) = gNumFrameResources
     \<and> list_all (\<lambda>fr. Fence fr = 0) (mFrameResources s)
     \<and> mCurrFrameResourceIndex s = 0
     \<and> mFence s = mCurrentFence s
     \<and> mCommandQueue s = [])"

inductive reachable :: "cpu_phase \<times> 'f FrameSync \<times> (nat \<times> nat) list \<Rightarrow> bool" where
  start: "initial s \<Longrightarrow> reachable (BetweenFrames, s, [])"
| step: "reachable c \<Longrightarrow> frame_step c c' \<Longrightarrow> reachable c'"

subsection \<open>Five frames\<close>

text \<open>
  One frame: the GPU first gets through \<open>g\<close> more signals, then Update and Draw run.
  \<open>run_frames\<close> returns the state at the end of every frame.
\<close>

definition frame :: "nat \<Rightarrow> 'f FrameSync \<Rightarrow> 'f FrameSync option" where
  "frame g s = map_option Draw (Update ((GpuSignal ^^ g) s))"

fun run_frames :: "nat list \<Rightarrow> 'f FrameSync \<Rightarrow> 'f FrameSync list option" where
  "run_frames [] s = Some []"
| "run_frames (g # gs) s =
     (case frame g s of
        None \<Rightarrow> None
      | Some s' \<Rightarrow> map_option ((#) s') (run_frames gs s'))"

definition scenario_start :: "'f FrameSync" where
  "scenario_start =
     \<lparr>mFrameResources = replicate 3 (new_FrameResource 1 2 1 0),
      mCurrFrameResourceIndex = 0,
      mCurrentFence = 0,
      mFence = 0,
      mCommandQueue = []\<rparr>"

subsection \<open>Invariants and observations used in the proofs\<close>

definition pace_inv :: "'f FrameSync \<Rightarrow> bool" where
  "pace_inv s = (length (mFrameResources s) = gNumFrameResources
     \<and> mCurrFrameResourceIndex s < gNumFrameResources
     \<and> sorted_wrt (<) (mFence s # mCommandQueue s)
     \<and> list_all (\<lambda>v. v \<le> mCurrentFence s) (mFence s # mCommandQueue s)
     \<and> list_all (\<lambda>fr. Fence fr \<le> mFence s \<or> Fence fr \<in> set (mCommandQueue s)) (mFrameResources s))"

definition obs :: "'f FrameSync \<Rightarrow> nat \<times> nat \<times> nat list" where
  "obs s = (mCurrFrameResourceIndex s, mCurrentFence s, map Fence (mFrameResources s))"

definition frame_obs :: "nat \<times> nat \<times> nat list \<Rightarrow> nat \<times> nat \<times> nat list" where
  "frame_obs x = (case x of (i, f, fs) \<Rightarrow>
     ((i + 1) mod 3, f + 1, fs[(i + 1) mod 3 := f + 1]))"

fun obs_trace :: "nat \<Rightarrow> nat \<times> nat \<times> nat list \<Rightarrow> (nat \<times> nat \<times> nat list) list" where
  "obs_trace 0 x = []"
| "obs_trace (Suc n) x = frame_obs x # obs_trace n (frame_obs x)"

text \<open>
  What the proofs keep about the submissions: the in-flight ones are those of the
  signals in the queue, and no submission of a slot carries a fence above the one
  recorded in the slot.
\<close>

definition flight_inv :: "cpu_phase \<times> 'f FrameSync \<times> (nat \<times> nat) list \<Rightarrow> bool" where
  "flight_inv c = (case c of (p, s, h) \<Rightarrow>
     pace_inv s
     \<and> length (mCommandQueue s) \<le> length h
     \<and> map snd (in_flight s h) = mCommandQueue s
     \<and> list_all (\<lambda>x. fst x < gNumFrameResources \<and> snd x \<le> Fence (mFrameResources s ! fst x)) h
     \<and> (p = Writing \<longrightarrow> \<not> MustWait s))"

text \<open>
  Three frames from the start state with an idle GPU, then the fourth Update: it selects
  slot 1 again, stamped 1 in the first frame, and waits until the GPU has reached that
  signal.
\<close>

definition frame1 :: "unit FrameSync" where
  "frame1 = Draw (CycleFrameResource scenario_start)"

definition frame2 :: "unit FrameSync" where
  "frame2 = Draw (CycleFrameResource frame1)"

definition frame3 :: "unit FrameSync" where
  "frame3 = Draw (CycleFrameResource frame2)"

definition reuse_slot :: "unit FrameSync" where
  "reuse_slot = GpuSignal (CycleFrameResource frame3)"

section \<open>Scene: render items, materials, layers\<close>

datatype D3D_PRIMITIVE_TOPOLOGY = TRIANGLELIST | POINTLIST

text \<open>
  The struct RenderItem, lines 24-54. \<open>Mat\<close> and \<open>Geo\<close> are pointers into the
  name-keyed stores: the name of the entry, \<open>None\<close> for \<^verbatim>\<open>nullptr\<close>.
\<close>

record 'f RenderItem =
  World :: "'f XMFLOAT4X4"
  TexTransform :: "'f XMFLOAT4X4"
  NumFramesDirty :: int
  ObjCBIndex :: "32 word"
  Mat :: "string option"
  Geo :: "string option"
  PrimitiveType :: D3D_PRIMITIVE_TOPOLOGY
  IndexCount :: "32 word"
  StartIndexLocation :: "32 word"
  BaseVertexLocation :: int

definition default_RenderItem :: "(rat \<Rightarrow> 'f) \<Rightarrow> 'f RenderItem" where
  "default_RenderItem flt =
     \<lparr>World = Identity4x4 flt,
      TexTransform = Identity4x4 flt,
      NumFramesDirty = int gNumFrameResources,
      ObjCBIndex = - 1,
      Mat = None,
      Geo = None,
      PrimitiveType = TRIANGLELIST,
      IndexCount = 0,
      StartIndexLocation = 0,
      BaseVertexLocation = 0\<rparr>"

datatype RenderLayer = Opaque | Transparent | AlphaTested | AlphaTestedTreeSprites

text \<open>
  Modelled from the spec: the struct \<^verbatim>\<open>Material\<close> (\<^verbatim>\<open>d3dUtil.h\<close> is not among the
  sources): named; albedo, Fresnel term, roughness, a texture-array slot index, a
  transform for scrolling textures and its own dirty counter, which a new material
  holds at the number of frame resources. The transform of a new material is the
  identity.
\<close>

record 'f Material =
  Name :: string
  MatCBIndex :: int
  DiffuseSrvHeapIndex :: int
  DiffuseAlbedo :: "'f \<times> 'f \<times> 'f \<times> 'f"
  FresnelR0 :: "'f \<times> 'f \<times> 'f"
  Roughness :: 'f
  MatTransform :: "'f XMFLOAT4X4"
  MatNumFramesDirty :: int

text \<open>
  Modelled from the spec: a sub-mesh of a geometry is its index count, start index and
  base vertex (\<^verbatim>\<open>SubmeshGeometry\<close> of \<^verbatim>\<open>d3dUtil.h\<close>). The geometries are built
  by functions that rest on the geometry generator, which is not among the sources, so
  the draw arguments of every named sub-mesh are a parameter \<open>DrawArgs geo submesh\<close>.
\<close>

record SubmeshGeometry =
  sm_IndexCount :: "32 word"
  sm_StartIndexLocation :: "32 word"
  sm_BaseVertexLocation :: int

text \<open>
  The members of the application that hold the scene. \<open>mAllRitems\<close> owns the render
  items; a \<^verbatim>\<open>RenderItem*\<close> held elsewhere is the position of the item in
  \<open>mAllRitems\<close> (items are only ever appended). \<open>mMaterials\<close> is the name-keyed map,
  as the list of its entries in iteration order.
\<close>

record 'f Scene =
  mAllRitems :: "'f RenderItem list"
  mRitemLayer :: "RenderLayer \<Rightarrow> nat list"
  mWavesRitem :: "nat option"
  mMaterials :: "(string \<times> 'f Material) list"

definition empty_Scene :: "'f Scene" where
  "empty_Scene = \<lparr>mAllRitems = [], mRitemLayer = (\<lambda>_. []), mWavesRitem = None, mMaterials = []\<rparr>"

subsection \<open>BuildMaterials, lines 1519-1589\<close>

definition new_Material ::
  "(rat \<Rightarrow> 'f) \<Rightarrow> string \<Rightarrow> int \<Rightarrow> int \<Rightarrow> 'f \<times> 'f \<times> 'f \<times> 'f \<Rightarrow> 'f \<times> 'f \<times> 'f \<Rightarrow> 'f \<Rightarrow> 'f Material" where
  "new_Material flt name cbIndex srvIndex albedo fresnel roughness =
     \<lparr>Name = name,
      MatCBIndex = cbIndex,
      DiffuseSrvHeapIndex = srvIndex,
      DiffuseAlbedo = albedo,
      FresnelR0 = fresnel,
      Roughness = roughness,
      MatTransform = Identity4x4 flt,
      MatNumFramesDirty = int gNumFrameResources\<rparr>"

definition BuildMaterials :: "(rat \<Rightarrow> 'f) \<Rightarrow> 'f Scene \<Rightarrow> 'f Scene" where
  "BuildMaterials flt s =
     (let grass = new_Material flt ''grass'' 0 0
            (flt 1, flt 1, flt 1, flt 1) (flt 0.01, flt 0.01, flt 0.01) (flt 0.125);
          water = new_Material flt ''water'' 1 1
            (flt 1, flt 1, flt 1, flt 0.5) (flt 0.1, flt 0.1, flt 0.1) (flt 0);
          brick = new_Material flt ''brick'' 2 2
            (flt 1, flt 1, flt 1, flt 1) (flt 0.02, flt 0.02, flt 0.02) (flt 0.25);
          marble = new_Material flt ''marble'' 3 3
            (flt 1, flt 1, flt 1, flt 1) (flt 0.02, flt 0.02, flt 0.02) (flt 0.25);
          wood = new_Material flt ''wood'' 4 4
            (flt 1, flt 1, flt 1, flt 1) (flt 0.02, flt 0.02, flt 0.02) (flt 0.25);
          crystal = new_Material flt ''crystal'' 5 5
            (flt 1, flt 1, flt 1, flt 1) (flt 0.02, flt 0.02, flt 0.02) (flt 0.25);
          treeSprites = new_Material flt ''treeSprites'' 6 6
            (flt 1, flt 1, flt 1, flt 1) (flt 0.01, flt 0.01, flt 0.01) (flt 0.125)
      in s\<lparr>mMaterials :=
           AList.update ''treeSprites'' treeSprites
            (AList.update ''crystal'' crystal
             (AList.update ''wood'' wood
              (AList.update ''marble'' marble
               (AList.update ''brick'' brick
                (AList.update ''water'' water
                 (AList.update ''grass'' grass (mMaterials s)))))))\<rparr>)"

subsection \<open>BuildRenderItems, lines 1591-1953, and BuildMazePart, lines 1393-1408\<close>

text \<open>
  The statements that every block of BuildRenderItems repeats: a new RenderItem, its
  transforms, its constant-buffer index, its material, its geometry and the draw
  arguments of the sub-mesh. A block that leaves TexTransform alone passes the identity.
\<close>

definition make_RenderItem ::
  "(rat \<Rightarrow> 'f) \<Rightarrow> (string \<Rightarrow> string \<Rightarrow> SubmeshGeometry) \<Rightarrow> 'f XMFLOAT4X4 \<Rightarrow> 'f XMFLOAT4X4 \<Rightarrow>
   32 word \<Rightarrow> string \<Rightarrow> string \<Rightarrow> string \<Rightarrow> D3D_PRIMITIVE_TOPOLOGY \<Rightarrow> 'f RenderItem" where
  "make_RenderItem flt DrawArgs world tex cbIndex mat geo submesh topology =
     (default_RenderItem flt)
       \<lparr>World := world,
        TexTransform := tex,
        ObjCBIndex := cbIndex,
        Mat := Some mat,
        Geo := Some geo,
        PrimitiveType := topology,
        IndexCount := sm_IndexCount (DrawArgs geo submesh),
        StartIndexLocation := sm_StartIndexLocation (DrawArgs geo submesh),
        BaseVertexLocation := sm_BaseVertexLocation (DrawArgs geo submesh)\<rparr>"

text \<open>
  \<^verbatim>\<open>mRitemLayer[layer].push_back(item.get()); mAllRitems.push_back(std::move(item))\<close>:
  the pointer pushed on the layer is the position the item takes in \<open>mAllRitems\<close>.
\<close>

definition push_RenderItem :: "RenderLayer \<Rightarrow> 'f RenderItem \<Rightarrow> 'f Scene \<Rightarrow> 'f Scene" where
  "push_RenderItem layer ri s =
     s\<lparr>mRitemLayer := (mRitemLayer s)(layer := mRitemLayer s layer @ [length (mAllRitems s)]),
       mAllRitems := mAllRitems s @ [ri]\<rparr>"

text \<open>
  A block that takes its index with \<^verbatim>\<open>funcCBIndex++\<close>: the pair is
  \<open>(funcCBIndex, scene)\<close>.
\<close>

definition add_RenderItem ::
  "RenderLayer \<Rightarrow> (32 word \<Rightarrow> 'f RenderItem) \<Rightarrow> int \<times> 'f Scene \<Rightarrow> int \<times> 'f Scene" where
  "add_RenderItem layer item = (\<lambda>(funcCBIndex, s).
     (funcCBIndex + 1, push_RenderItem layer (item (word_of_int funcCBIndex)) s))"

definition BuildMazePart ::
  "(rat \<Rightarrow> 'f::{plus,times}) \<Rightarrow> (string \<Rightarrow> string \<Rightarrow> SubmeshGeometry) \<Rightarrow>
   'f \<Rightarrow> 'f \<Rightarrow> 'f \<Rightarrow> 'f \<Rightarrow> int \<Rightarrow> 'f Scene \<Rightarrow> 'f Scene" where
  "BuildMazePart flt DrawArgs sX sZ pX pZ index s =
     push_RenderItem AlphaTested
       (make_RenderItem flt DrawArgs
          (XMMatrixMultiply (XMMatrixScaling flt sX (flt 30) sZ) (XMMatrixTranslation flt pX (flt 25) pZ))
          (XMMatrixScaling flt (flt 6) (flt 4) (flt 4))
          (word_of_int index) ''grass'' ''wallGeo'' ''wall'' TRIANGLELIST) s"

text \<open>The arguments of the 61 calls of BuildMazePart, lines 1876-1949, in order.\<close>

definition maze_parts :: "(rat \<times> rat \<times> rat \<times> rat) list" where
  "maze_parts = [
    (54, 1.5, 40, - 90), (54, 1.5, - 40, - 90), (54, 1.5, 40, 90), (54, 1.5, - 40, 90),
    (1.5, 180, 67, 0), (1.5, 180, - 67, 0), (20, 1.5, 21, - 80), (22, 1.5, 56, - 80),
    (42, 1.5, - 34, - 80), (1.5, 31.5, 45, - 65), (1.5, 41.5, 31, - 60),
    (1.5, 31.5, - 13, - 65), (1.5, 31.5, - 55, - 65), (1.5, 26.5, - 16, - 103),
    (1.5, 26.5, 16, - 103), (30, 1.5, - 40, - 60), (10, 1.5, 50, - 65),
    (42.5, 1.5, - 46, - 30), (67.5, 1.5, 20, - 30), (1.5, 31.5, - 25, - 45),
    (1.5, 35.5, 12, - 48), (20, 1.5, 21.5, - 55), (42.5, 1.5, - 46, 0),
    (42.5, 1.5, - 34, - 15), (1.5, 31.5, - 13, - 15), (1.5, 41.5, 31, 5),
    (24, 1.5, 55, - 15), (24, 1.5, 43, 0), (24, 1.5, 19, - 15), (36, 1.5, 49, 25),
    (1.5, 15, 49, 7.5), (32.5, 1.5, 2.5, 0), (1.5, 30, 0, 15), (32.5, 1.5, - 41, 80),
    (1.5, 20, - 41, 70), (13.5, 1.5, - 47, 60), (1.5, 11.5, - 53, 66),
    (13.5, 1.5, - 27, 57), (1.5, 11.5, - 33, 63), (13.5, 1.5, - 27, 69),
    (1.5, 11.5, - 21, 63), (32.5, 1.5, - 41, 35), (1.5, 20, - 41, 25),
    (13.5, 1.5, - 47, 15), (1.5, 11.5, - 53, 21), (17.5, 1.5, - 20, 9),
    (1.5, 11.5, - 28, 15), (17.5, 1.5, - 20, 21), (1.5, 11.5, - 12, 15),
    (35, 1.5, - 49, 47), (1.5, 61.5, - 13, 60), (13.5, 1.5, - 6, 30), (1.5, 31.5, 13, 75),
    (36.5, 1.5, 6, 45), (16.5, 1.5, 23, 25), (1.5, 21.5, 24, 55), (1.5, 15, 24, 82.5),
    (27.5, 1.5, 37, 65), (1.5, 15, 39, 72.5), (1.5, 25, 42, 37.5), (12.5, 1.5, 48, 40)]"

definition wall_block :: "(rat \<Rightarrow> 'f::{plus,minus,times}) \<Rightarrow> (string \<Rightarrow> string \<Rightarrow> SubmeshGeometry) \<Rightarrow>
    string \<Rightarrow> 'f \<times> 'f \<times> 'f \<Rightarrow> 'f \<times> 'f \<times> 'f \<Rightarrow> 'f \<times> 'f \<times> 'f \<Rightarrow> 32 word \<Rightarrow> 'f RenderItem" where
  "wall_block flt DrawArgs mat tex scale pos cbIndex =
     (case (tex, scale, pos) of ((tx, ty, tz), (sx, sy, sz), (px, py, pz)) \<Rightarrow>
        make_RenderItem flt DrawArgs
          (XMMatrixMultiply (XMMatrixScaling flt sx sy sz) (XMMatrixTranslation flt px py pz))
          (XMMatrixScaling flt tx ty tz) cbIndex mat ''wallGeo'' ''wall'' TRIANGLELIST)"

definition tower_block :: "(rat \<Rightarrow> 'f::{plus,minus,times}) \<Rightarrow> (string \<Rightarrow> string \<Rightarrow> SubmeshGeometry) \<Rightarrow>
    string \<Rightarrow> string \<Rightarrow> string \<Rightarrow> 'f \<times> 'f \<times> 'f \<Rightarrow> 'f \<times> 'f \<times> 'f \<Rightarrow> 32 word \<Rightarrow> 'f RenderItem" where
  "tower_block flt DrawArgs mat geo submesh scale pos cbIndex =
     (case (scale, pos) of ((sx, sy, sz), (px, py, pz)) \<Rightarrow>
        make_RenderItem flt DrawArgs
          (XMMatrixMultiply (XMMatrixScaling flt sx sy sz) (XMMatrixTranslation flt px py pz))
          (Identity4x4 flt) cbIndex mat geo submesh TRIANGLELIST)"

text \<open>
  The body of BuildRenderItems; its result is the local counter \<open>funcCBIndex\<close> at the
  end of the function together with the scene.
\<close>

definition BuildRenderItems_body ::
  "(rat \<Rightarrow> 'f::{plus,minus,times}) \<Rightarrow> (string \<Rightarrow> string \<Rightarrow> SubmeshGeometry) \<Rightarrow> 'f Scene \<Rightarrow>
   int \<times> 'f Scene" where
  "BuildRenderItems_body flt DrawArgs s0 =
     (let f = (\<lambda>i::int. flt (of_int i));
          \<comment> \<open>lines 1594-1654: waves, land grid, the box that is never stored, tree sprites\<close>
          wavesRitem = make_RenderItem flt DrawArgs
            (XMMatrixScaling flt (flt 6) (flt 1) (flt 6)) (XMMatrixScaling flt (flt 30) (flt 30) (flt 1))
            0 ''water'' ''waterGeo'' ''grid'' TRIANGLELIST;
          gridRitem = make_RenderItem flt DrawArgs
            (Identity4x4 flt) (XMMatrixScaling flt (flt 5) (flt 5) (flt 1))
            1 ''grass'' ''landGeo'' ''grid'' TRIANGLELIST;
          boxRitem = make_RenderItem flt DrawArgs
            (XMMatrixTranslation flt (flt 3) (flt 30) (flt (- 9))) (Identity4x4 flt)
            (- 1) ''brick'' ''boxGeo'' ''box'' TRIANGLELIST;
          treeSpritesRitem = make_RenderItem flt DrawArgs
            (Identity4x4 flt) (Identity4x4 flt)
            2 ''treeSprites'' ''treeSpritesGeo'' ''points'' POINTLIST;
          n = length (mAllRitems s0);
          s1 = s0\<lparr>mWavesRitem := Some n,
                  mRitemLayer := (mRitemLayer s0)(Transparent := mRitemLayer s0 Transparent @ [n])\<rparr>;
          s2 = s1\<lparr>mRitemLayer := (mRitemLayer s1)(Opaque := mRitemLayer s1 Opaque @ [n + 1])\<rparr>;
          s3 = s2\<lparr>mRitemLayer := (mRitemLayer s2)
                  (AlphaTestedTreeSprites := mRitemLayer s2 AlphaTestedTreeSprites @ [n + 2])\<rparr>;
          s4 = s3\<lparr>mAllRitems := mAllRitems s3 @ [wavesRitem, gridRitem, treeSpritesRitem]\<rparr>;
          b0 = (3 :: int, s4);
          \<comment> \<open>lines 1656-1694: base of the castle, drawbridge, pyramid\<close>
          b1 = add_RenderItem AlphaTested (wall_block flt DrawArgs ''brick''
                 (flt 11, flt 11, flt 11) (flt 220, flt 8, flt 280) (flt 0, flt 6, flt 0)) b0;
          b2 = add_RenderItem AlphaTested (tower_block flt DrawArgs ''wood'' ''wallGeo'' ''wall''
                 (flt 30, flt 6, flt 45) (flt 0, flt 9, flt (- 137.5))) b1;
          b3 = add_RenderItem AlphaTested (tower_block flt DrawArgs ''crystal'' ''pyramidGeo'' ''pyramid''
                 (flt 20, flt 12, flt 20) (flt 0, flt 16, flt 100)) b2;
          \<comment> \<open>lines 1697-1714: the three main walls without the gate\<close>
          b4 = fold (\<lambda>i. add_RenderItem AlphaTested (wall_block flt DrawArgs ''brick''
                 (flt 10, flt 2, flt 1)
                 (flt 12 + flt 168 * f (i mod 2), flt 40, flt 12 + flt 228 * (flt 1 - f (i mod 2)))
                 (flt (- 90) + f i * flt 90, flt 30, flt 120 - flt 120 * f (1 - i mod 2))))
               [0, 1, 2] b3;
          \<comment> \<open>lines 1717-1733: the walls around the gate\<close>
          b5 = fold (\<lambda>i. add_RenderItem AlphaTested (wall_block flt DrawArgs ''brick''
                 (flt 6, flt 2, flt 1)
                 (flt 80 - flt 50 * f (i mod 2), flt 40 - flt 25 * (flt 1 * f (i mod 2)), flt 10)
                 (flt (- 55) + flt 55 * f i, flt 30 + flt 12.5 * f (i mod 2), flt (- 120))))
               [0, 1, 2] b4;
          \<comment> \<open>lines 1736-1802: merlons, left, right, front and back in every round\<close>
          b6 = fold (\<lambda>i b.
                 add_RenderItem AlphaTested (wall_block flt DrawArgs ''brick''
                   (flt 0.5, flt 0.25, flt 1) (flt 15, flt 5, flt 12)
                   (flt (- 60) + flt 30 * f i, flt 52.5, flt 120))
                 (add_RenderItem AlphaTested (wall_block flt DrawArgs ''brick''
                   (flt 0.5, flt 0.25, flt 1) (flt 15, flt 5, flt 10)
                   (flt (- 60) + flt 30 * f i, flt 52.5, flt (- 120)))
                 (add_RenderItem AlphaTested (wall_block flt DrawArgs ''brick''
                   (flt 0.5, flt 0.25, flt 1) (flt 12, flt 5, flt 15)
                   (flt 90, flt 52.5, flt 80 - flt 40 * f i))
                 (add_RenderItem AlphaTested (wall_block flt DrawArgs ''brick''
                   (flt 0.5, flt 0.25, flt 1) (flt 12, flt 5, flt 15)
                   (flt (- 90), flt 52.5, flt 80 - flt 40 * f i)) b))))
               [0, 1, 2, 3, 4] b5;
          \<comment> \<open>lines 1805-1856: corners, tips and diamonds of the four towers\<close>
          b7 = fold (\<lambda>i. add_RenderItem AlphaTested (tower_block flt DrawArgs
                 ''marble'' ''cornerGeo'' ''corner'' (flt 10, flt 70, flt 10)
                 (flt (- 90) + flt 180 * f (i mod 2), flt 30, flt 120 - flt 240 * f (i div 2))))
               [0, 1, 2, 3] b6;
          b8 = fold (\<lambda>i. add_RenderItem AlphaTested (tower_block flt DrawArgs
                 ''marble'' ''coneGeo'' ''cone'' (flt 9, flt 20, flt 9)
                 (flt (- 90) + flt 180 * f (i mod 2), flt 75, flt 120 - flt 240 * f (i div 2))))
               [0, 1, 2, 3] b7;
          b9 = fold (\<lambda>i. add_RenderItem AlphaTested (tower_block flt DrawArgs
                 ''crystal'' ''diamondGeo'' ''diamond'' (flt 5, flt 8, flt 5)
                 (flt (- 90) + flt 180 * f (i mod 2), flt 100, flt 120 - flt 240 * f (i div 2))))
               [0, 1, 2, 3] b8;
          \<comment> \<open>lines 1859-1871: the diamond above the pyramid\<close>
          b10 = add_RenderItem AlphaTested (tower_block flt DrawArgs
                 ''crystal'' ''diamondGeo'' ''diamond'' (flt 7.5, flt 12, flt 7.5)
                 (flt 0, flt 30, flt 100)) b9;
          \<comment> \<open>lines 1876-1949: the maze, every call with funcCBIndex++\<close>
          b11 = fold (\<lambda>(sX, sZ, pX, pZ) (funcCBIndex, s).
                   (funcCBIndex + 1,
                    BuildMazePart flt DrawArgs (flt sX) (flt sZ) (flt pX) (flt pZ) funcCBIndex s))
                 maze_parts b10
      in b11)"

definition BuildRenderItems ::
  "(rat \<Rightarrow> 'f::{plus,minus,times}) \<Rightarrow> (string \<Rightarrow> string \<Rightarrow> SubmeshGeometry) \<Rightarrow> 'f Scene \<Rightarrow> 'f Scene" where
  "BuildRenderItems flt DrawArgs s0 = snd (BuildRenderItems_body flt DrawArgs s0)"

subsection \<open>BuildFrameResources, lines 1510-1517\<close>

text \<open>
  The object and material counts are the sizes of \<open>mAllRitems\<close> and \<open>mMaterials\<close>
  cast to \<^verbatim>\<open>UINT\<close>; \<open>waveVertCount\<close> is \<^verbatim>\<open>mWaves->VertexCount()\<close>.
\<close>

definition BuildFrameResources :: "'f Scene \<Rightarrow> nat \<Rightarrow> 'f FrameResource list \<Rightarrow> 'f FrameResource list" where
  "BuildFrameResources s waveVertCount frs =
     fold (\<lambda>i frs. frs @ [new_FrameResource 1
              (unat (word_of_nat (length (mAllRitems s)) :: 32 word))
              (unat (word_of_nat (length (mMaterials s)) :: 32 word))
              waveVertCount])
       [0..<gNumFrameResources] frs"

section \<open>Update stage: materials and constant buffers\<close>

text \<open>
  Modelled from the spec: \<^verbatim>\<open>UploadBuffer::CopyData\<close> (\<^verbatim>\<open>UploadBuffer.h\<close> is not
  among the sources) copies one element into the slot of the buffer at the given index.
  The buffer has no bounds check, so an index outside its capacity writes outside the
  mapped memory: the result is \<open>None\<close>.
\<close>

definition CopyData :: "nat \<Rightarrow> 'a \<Rightarrow> 'a option list \<Rightarrow> 'a option list option" where
  "CopyData elementIndex data buffer =
     (if elementIndex < length buffer then Some (buffer[elementIndex := Some data]) else None)"

subsection \<open>AnimateMaterials, lines 441-463\<close>

text \<open>
  \<open>dt\<close> is \<^verbatim>\<open>gt.DeltaTime()\<close>. \<^verbatim>\<open>mMaterials["water"].get()\<close> is a null pointer when
  the map has no such entry, and the function dereferences it: \<open>None\<close>.
\<close>

definition AnimateMaterials ::
  "(rat \<Rightarrow> 'f::{plus,minus,times,ord}) \<Rightarrow> 'f \<Rightarrow> 'f Scene \<Rightarrow> 'f Scene option" where
  "AnimateMaterials flt dt s =
     (case map_of (mMaterials s) ''water'' of
        None \<Rightarrow> None
      | Some waterMat \<Rightarrow>
          (let tu0 = MatTransform waterMat 3 0 + flt 0.1 * dt;
               tv0 = MatTransform waterMat 3 1 + flt 0.02 * dt;
               tu = (if flt 1 \<le> tu0 then tu0 - flt 1 else tu0);
               tv = (if flt 1 \<le> tv0 then tv0 - flt 1 else tv0);
               M = MatTransform waterMat
           in Some (s\<lparr>mMaterials := AList.update ''water''
                (waterMat\<lparr>MatTransform := M(3 := (M 3)(0 := tu, 1 := tv)),
                          MatNumFramesDirty := int gNumFrameResources\<rparr>)
                (mMaterials s)\<rparr>)))"

subsection \<open>UpdateObjectCBs, lines 465-487\<close>

text \<open>
  The loop over \<open>mAllRitems\<close>, writing into the object-constant buffer of the current
  frame resource. \<open>NumFramesDirty\<close> is an \<^verbatim>\<open>int\<close>; it is decremented only when
  positive, where no overflow is possible.
\<close>

fun UpdateObjectCBs_loop ::
  "'f RenderItem list \<Rightarrow> 'f ObjectConstants option list \<Rightarrow>
   ('f RenderItem list \<times> 'f ObjectConstants option list) option" where
  "UpdateObjectCBs_loop [] cb = Some ([], cb)"
| "UpdateObjectCBs_loop (e # es) cb =
     (if NumFramesDirty e > 0 then
        (case CopyData (unat (ObjCBIndex e))
                \<lparr>oc_World = XMMatrixTranspose (World e),
                 oc_TexTransform = XMMatrixTranspose (TexTransform e)\<rparr> cb of
           None \<Rightarrow> None
         | Some cb' \<Rightarrow>
             (case UpdateObjectCBs_loop es cb' of
                None \<Rightarrow> None
              | Some (es', cb'') \<Rightarrow> Some (e\<lparr>NumFramesDirty := NumFramesDirty e - 1\<rparr> # es', cb'')))
      else
        (case UpdateObjectCBs_loop es cb of
           None \<Rightarrow> None
         | Some (es', cb') \<Rightarrow> Some (e # es', cb')))"

definition UpdateObjectCBs :: "'f Scene \<Rightarrow> 'f FrameResource \<Rightarrow> ('f Scene \<times> 'f FrameResource) option" where
  "UpdateObjectCBs s currFrameResource =
     (case UpdateObjectCBs_loop (mAllRitems s) (ObjectCB currFrameResource) of
        None \<Rightarrow> None
      | Some (es, cb) \<Rightarrow> Some (s\<lparr>mAllRitems := es\<rparr>, currFrameResource\<lparr>ObjectCB := cb\<rparr>))"

subsection \<open>UpdateMaterialCBs, lines 489-513\<close>

fun UpdateMaterialCBs_loop ::
  "(string \<times> 'f Material) list \<Rightarrow> 'f MaterialConstants option list \<Rightarrow>
   ((string \<times> 'f Material) list \<times> 'f MaterialConstants option list) option" where
  "UpdateMaterialCBs_loop [] cb = Some ([], cb)"
| "UpdateMaterialCBs_loop ((name, mat) # es) cb =
     (if MatNumFramesDirty mat > 0 then
        (if MatCBIndex mat < 0 then None
         else
           (case CopyData (nat (MatCBIndex mat))
                   \<lparr>mc_DiffuseAlbedo = DiffuseAlbedo mat,
                    mc_FresnelR0 = FresnelR0 mat,
                    mc_Roughness = Roughness mat,
                    mc_MatTransform = XMMatrixTranspose (MatTransform mat)\<rparr> cb of
              None \<Rightarrow> None
            | Some cb' \<Rightarrow>
                (case UpdateMaterialCBs_loop es cb' of
                   None \<Rightarrow> None
                 | Some (es', cb'') \<Rightarrow>
                     Some ((name, mat\<lparr>MatNumFramesDirty := MatNumFramesDirty mat - 1\<rparr>) # es', cb''))))
      else
        (case UpdateMaterialCBs_loop es cb of
           None \<Rightarrow> None
         | Some (es', cb') \<Rightarrow> Some ((name, mat) # es', cb')))"

definition UpdateMaterialCBs :: "'f Scene \<Rightarrow> 'f FrameResource \<Rightarrow> ('f Scene \<times> 'f FrameResource) option" where
  "UpdateMaterialCBs s currFrameResource =
     (case UpdateMaterialCBs_loop (mMaterials s) (MaterialCB currFrameResource) of
        None \<Rightarrow> None
      | Some (es, cb) \<Rightarrow> Some (s\<lparr>mMaterials := es\<rparr>, currFrameResource\<lparr>MaterialCB := cb\<rparr>))"

subsection \<open>Update cycles\<close>

text \<open>
  One Update cycle for every frame resource of the list, in order: UpdateObjectCBs and
  then UpdateMaterialCBs with that frame resource current, and nothing else touching the
  records in between.
\<close>

fun Update_cycles :: "'f FrameResource list \<Rightarrow> 'f Scene \<Rightarrow> 'f Scene option" where
  "Update_cycles [] s = Some s"
| "Update_cycles (fr # frs) s =
     (case UpdateObjectCBs s fr of
        None \<Rightarrow> None
      | Some (s1, fr1) \<Rightarrow>
          (case UpdateMaterialCBs s1 fr1 of
             None \<Rightarrow> None
           | Some (s2, fr2) \<Rightarrow> Update_cycles frs s2))"

text \<open>What one cycle does to a dirty counter.\<close>

definition flush :: "int \<Rightarrow> int" where
  "flush d = (if d > 0 then d - 1 else d)"

section \<open>Draw stage: the recorded command sequence\<close>

datatype D3D12_RESOURCE_STATES = PRESENT | RENDER_TARGET

text \<open>
  A GPU virtual address of a constant buffer view: the base of the buffer of the current
  frame resource plus the index times the element size.
\<close>

datatype gpu_address = PassCBAddress | ObjectCBAddress "32 word" | MaterialCBAddress int

datatype command =
    Reset string
  | RSSetViewports
  | RSSetScissorRects
  | ResourceBarrier D3D12_RESOURCE_STATES D3D12_RESOURCE_STATES
  | ClearRenderTargetView
  | ClearDepthStencilView
  | OMSetRenderTargets
  | SetDescriptorHeaps
  | SetGraphicsRootSignature
  | SetGraphicsRootConstantBufferView nat gpu_address
  | SetPipelineState string
  | IASetVertexBuffers string
  | IASetIndexBuffer string
  | IASetPrimitiveTopology D3D_PRIMITIVE_TOPOLOGY
  | SetGraphicsRootDescriptorTable nat int
  | DrawIndexedInstanced "32 word" nat "32 word" int nat
  | Close

text \<open>
  DrawRenderItems, lines 1955-1985. A pointer of the layer list that is not an item of
  \<open>mAllRitems\<close>, a null \<open>Geo\<close> or \<open>Mat\<close> and a material that is not in the
  store are invalid reads: \<open>None\<close>.
\<close>

fun DrawRenderItems :: "'f Scene \<Rightarrow> nat list \<Rightarrow> command list option" where
  "DrawRenderItems s [] = Some []"
| "DrawRenderItems s (p # ps) =
     (if p < length (mAllRitems s) then
        (let ri = mAllRitems s ! p in
         case Geo ri of
           None \<Rightarrow> None
         | Some geo \<Rightarrow>
             (case Mat ri of
                None \<Rightarrow> None
              | Some matName \<Rightarrow>
                  (case map_of (mMaterials s) matName of
                     None \<Rightarrow> None
                   | Some mat \<Rightarrow>
                       (case DrawRenderItems s ps of
                          None \<Rightarrow> None
                        | Some cs \<Rightarrow> Some
                           ([IASetVertexBuffers geo,
                             IASetIndexBuffer geo,
                             IASetPrimitiveTopology (PrimitiveType ri),
                             SetGraphicsRootDescriptorTable 0 (DiffuseSrvHeapIndex mat),
                             SetGraphicsRootConstantBufferView 1 (ObjectCBAddress (ObjCBIndex ri)),
                             SetGraphicsRootConstantBufferView 3 (MaterialCBAddress (MatCBIndex mat)),
                             DrawIndexedInstanced (IndexCount ri) 1 (StartIndexLocation ri)
                               (BaseVertexLocation ri) 0] @ cs)))))
      else None)"

text \<open>
  Draw, lines 277-325: the commands recorded between the reset of the command list, whose
  initial pipeline state is \<^verbatim>\<open>mPSOs["opaque"]\<close>, and its close.
\<close>

definition DrawCommands :: "'f Scene \<Rightarrow> command list option" where
  "DrawCommands s =
     (case DrawRenderItems s (mRitemLayer s Opaque) of
        None \<Rightarrow> None
      | Some opaque \<Rightarrow>
     (case DrawRenderItems s (mRitemLayer s AlphaTested) of
        None \<Rightarrow> None
      | Some alphaTested \<Rightarrow>
     (case DrawRenderItems s (mRitemLayer s AlphaTestedTreeSprites) of
        None \<Rightarrow> None
      | Some treeSprites \<Rightarrow>
     (case DrawRenderItems s (mRitemLayer s Transparent) of
        None \<Rightarrow> None
      | Some transparent \<Rightarrow> Some
         ([Reset ''opaque'',
           RSSetViewports,
           RSSetScissorRects,
           ResourceBarrier PRESENT RENDER_TARGET,
           ClearRenderTargetView,
           ClearDepthStencilView,
           OMSetRenderTargets,
           SetDescriptorHeaps,
           SetGraphicsRootSignature,
           SetGraphicsRootConstantBufferView 2 PassCBAddress]
          @ opaque
          @ [SetPipelineState ''alphaTested''] @ alphaTested
          @ [SetPipelineState ''treeSprites''] @ treeSprites
          @ [SetPipelineState ''transparent''] @ transparent
          @ [ResourceBarrier RENDER_TARGET PRESENT, Close])))))"

text \<open>
  What the GPU is asked to draw: running through a command sequence with the pipeline
  state and the object constant buffer (root parameter 1) bound so far, every draw call
  is listed with the two that are bound when it is issued.
\<close>

fun track :: "command \<Rightarrow> string \<times> gpu_address option \<times> (string \<times> gpu_address option) list \<Rightarrow>
    string \<times> gpu_address option \<times> (string \<times> gpu_address option) list" where
  "track (Reset pso) (p, a, out) = (pso, a, out)"
| "track (SetPipelineState pso) (p, a, out) = (pso, a, out)"
| "track (SetGraphicsRootConstantBufferView slot addr) (p, a, out) =
     (if slot = 1 then (p, Some addr, out) else (p, a, out))"
| "track (DrawIndexedInstanced ic n si bv st) (p, a, out) = (p, a, out @ [(p, a)])"
| "track _ (p, a, out) = (p, a, out)"

definition issued_draws :: "command list \<Rightarrow> (string \<times> gpu_address option) list" where
  "issued_draws cs = snd (snd (fold track cs ([], None, [])))"

definition layer_draws :: "'f Scene \<Rightarrow> string \<Rightarrow> RenderLayer \<Rightarrow> (string \<times> gpu_address option) list" where
  "layer_draws s pso layer =
     map (\<lambda>p. (pso, Some (ObjectCBAddress (ObjCBIndex (mAllRitems s ! p))))) (mRitemLayer s layer)"

section \<open>Concrete scenes\<close>

text \<open>
  The scene of the application with exact rational scalars and every sub-mesh of 36
  indices, and a scene of two items, the water in the transparent layer and the land in
  the opaque layer.
\<close>

definition demo_DrawArgs :: "string \<Rightarrow> string \<Rightarrow> SubmeshGeometry" where
  "demo_DrawArgs geo submesh =
     \<lparr>sm_IndexCount = 36, sm_StartIndexLocation = 0, sm_BaseVertexLocation = 0\<rparr>"

definition demo_Scene :: "rat Scene" where
  "demo_Scene = BuildRenderItems (\<lambda>q. q) demo_DrawArgs (BuildMaterials (\<lambda>q. q) empty_Scene)"

definition small_Scene :: "rat Scene" where
  "small_Scene =
     \<lparr>mAllRitems =
        [make_RenderItem (\<lambda>q. q) demo_DrawArgs (Identity4x4 (\<lambda>q. q)) (Identity4x4 (\<lambda>q. q))
           0 ''water'' ''waterGeo'' ''grid'' TRIANGLELIST,
         make_RenderItem (\<lambda>q. q) demo_DrawArgs (Identity4x4 (\<lambda>q. q)) (Identity4x4 (\<lambda>q. q))
           1 ''grass'' ''landGeo'' ''grid'' TRIANGLELIST],
      mRitemLayer = (\<lambda>_. [])(Transparent := [0], Opaque := [1]),
      mWavesRitem = Some 0,
      mMaterials = mMaterials (BuildMaterials (\<lambda>q. q) empty_Scene)\<rparr>"

section \<open>Invariants and observations of the scene used in the proofs\<close>

text \<open>
  The local counter of BuildRenderItems is the number of stored items, and the stored
  items carry the indices 0, 1, 2, ... in the order of \<open>mAllRitems\<close>.
\<close>

definition cb_indexed :: "int \<times> 'f Scene \<Rightarrow> bool" where
  "cb_indexed b = (fst b = int (length (mAllRitems (snd b)))
     \<and> map ObjCBIndex (mAllRitems (snd b)) = map word_of_nat [0..<length (mAllRitems (snd b))])"

text \<open>
  The dirty counters of the render items and of the materials, and the condition that
  every constant-buffer index of the scene lies within the buffers of a frame resource.
\<close>

definition item_counters :: "'f Scene \<Rightarrow> int list" where
  "item_counters s = map NumFramesDirty (mAllRitems s)"

definition material_counters :: "'f Scene \<Rightarrow> int list" where
  "material_counters s = map (\<lambda>e. MatNumFramesDirty (snd e)) (mMaterials s)"

definition fits :: "'f Scene \<Rightarrow> 'f FrameResource \<Rightarrow> bool" where
  "fits s fr =
     (list_all (\<lambda>e. unat (ObjCBIndex e) < length (ObjectCB fr)) (mAllRitems s)
      \<and> list_all (\<lambda>e. 0 \<le> MatCBIndex (snd e) \<and> nat (MatCBIndex (snd e)) < length (MaterialCB fr))
           (mMaterials s))"

section \<open>Mouse input: OnMouseMove, lines 357-377\<close>

text \<open>
  The class Camera is not among the sources; its methods \<open>Pitch\<close> and \<open>RotateY\<close> are
  parameters that take the angle and the camera, and \<open>XMConvertToRadians\<close> is the
  conversion of DirectXMath. \<open>MK_LBUTTON\<close> is the constant of the Windows headers. The
  mouse coordinates are \<^verbatim>\<open>int\<close>; their differences are far from the range limits.
\<close>

record 'cam Input =
  mCamera :: 'cam
  mLastMousePos :: "int \<times> int"
  bNoClip :: bool

definition MK_LBUTTON :: "64 word" where
  "MK_LBUTTON = 1"

definition OnMouseMove ::
  "(rat \<Rightarrow> 'f::times) \<Rightarrow> ('f \<Rightarrow> 'f) \<Rightarrow> ('f \<Rightarrow> 'cam \<Rightarrow> 'cam) \<Rightarrow> ('f \<Rightarrow> 'cam \<Rightarrow> 'cam) \<Rightarrow>
   64 word \<Rightarrow> int \<Rightarrow> int \<Rightarrow> 'cam Input \<Rightarrow> 'cam Input" where
  "OnMouseMove flt XMConvertToRadians Pitch RotateY btnState x y s =
     (let s1 =
        (if and btnState MK_LBUTTON \<noteq> 0 then
           (let dx = XMConvertToRadians (flt 0.25 * flt (of_int (x - fst (mLastMousePos s))));
                dy = XMConvertToRadians (flt 0.25 * flt (of_int (y - snd (mLastMousePos s))));
                c = (if bNoClip s then Pitch dy (mCamera s) else mCamera s)
            in s\<lparr>mCamera := RotateY dx c\<rparr>)
         else s)
      in s1\<lparr>mLastMousePos := (x, y)\<rparr>)"

text \<open>
  A camera that is only its two angles, in exact rationals, with 355/113 for pi.
\<close>

definition demo_Pitch :: "rat \<Rightarrow> rat \<times> rat \<Rightarrow> rat \<times> rat" where
  "demo_Pitch angle c = (fst c + angle, snd c)"

definition demo_RotateY :: "rat \<Rightarrow> rat \<times> rat \<Rightarrow> rat \<times> rat" where
  "demo_RotateY angle c = (fst c, snd c + angle)"

definition demo_Radians :: "rat \<Rightarrow> rat" where
  "demo_Radians degrees = degrees * ((355 / 113) / 180)"

definition demo_Input :: "(rat \<times> rat) Input" where
  "demo_Input = \<lparr>mCamera = (0, 0), mLastMousePos = (0, 0), bNoClip = False\<rparr>"

section \<open>Waves: UpdateWaves, lines 598-615\<close>

text \<open>
  Modelled from the spec: \<^verbatim>\<open>MathHelper::Rand(a, b)\<close> (\<^verbatim>\<open>MathHelper.h\<close> is not among
  the sources) is a random integer of the closed range from \<open>a\<close> to \<open>b\<close>, for
  \<open>a \<le> b\<close>; \<open>r\<close> is the value that the random source gives for this call.
\<close>

definition Rand :: "int \<Rightarrow> int \<Rightarrow> nat \<Rightarrow> int" where
  "Rand a b r = a + int r mod (b - a + 1)"

text \<open>
  The class Waves is not among the sources: the calls made on \<^verbatim>\<open>mWaves\<close> are logged
  in order. \<open>t_base\<close> is the static local of UpdateWaves.
\<close>

datatype 'f waves_call = Disturb int int 'f | WavesUpdate 'f

record 'f WavesTimer =
  t_base :: 'f
  calls :: "'f waves_call list"

text \<open>Line 602: the condition under which a disturbance is generated.\<close>

definition fires :: "(rat \<Rightarrow> 'f::{minus,ord}) \<Rightarrow> 'f \<Rightarrow> 'f WavesTimer \<Rightarrow> bool" where
  "fires flt totalTime s = (flt 0.25 \<le> totalTime - t_base s)"

text \<open>
  \<open>totalTime\<close> is \<^verbatim>\<open>mTimer.TotalTime()\<close>, \<open>dt\<close> is \<^verbatim>\<open>gt.DeltaTime()\<close>,
  \<open>rowCount\<close> and \<open>colCount\<close> are the grid dimensions of \<^verbatim>\<open>mWaves\<close>, \<open>ri\<close> and
  \<open>rj\<close> are the values of the random source for the two calls of \<open>Rand\<close>, and
  \<open>magnitude\<close> is the value of \<^verbatim>\<open>MathHelper::RandF(0.2f, 0.5f)\<close>. The copy of the
  simulated vertices into the dynamic vertex buffer, lines 617-635, follows and does
  not touch these members.
\<close>

definition UpdateWaves ::
  "(rat \<Rightarrow> 'f::{plus,minus,ord}) \<Rightarrow> int \<Rightarrow> int \<Rightarrow> 'f \<Rightarrow> 'f \<Rightarrow> nat \<times> nat \<times> 'f \<Rightarrow>
   'f WavesTimer \<Rightarrow> 'f WavesTimer" where
  "UpdateWaves flt rowCount colCount totalTime dt rnd s =
     (case rnd of (ri, rj, magnitude) \<Rightarrow>
        (let s1 =
           (if fires flt totalTime s then
              (let i = Rand 4 (rowCount - 5) ri;
                   j = Rand 4 (colCount - 5) rj
               in s\<lparr>t_base := t_base s + flt 0.25,
                    calls := calls s @ [Disturb i j magnitude]\<rparr>)
            else s)
         in s1\<lparr>calls := calls s1 @ [WavesUpdate dt]\<rparr>))"

text \<open>
  A run of UpdateWaves, one call per frame with the frame's total time, and the total
  times of the frames in which a disturbance was generated.
\<close>

fun fired_at ::
  "(rat \<Rightarrow> 'f::{plus,minus,ord}) \<Rightarrow> int \<Rightarrow> int \<Rightarrow> ('f \<times> 'f \<times> nat \<times> nat \<times> 'f) list \<Rightarrow>
   'f WavesTimer \<Rightarrow> 'f list" where
  "fired_at flt rowCount colCount [] s = []"
| "fired_at flt rowCount colCount ((totalTime, dt, rnd) # frames) s =
     (if fires flt totalTime s then [totalTime] else [])
     @ fired_at flt rowCount colCount frames (UpdateWaves flt rowCount colCount totalTime dt rnd s)"

text \<open>The reading of the claim: consecutive disturbances are at least 0.25 apart.\<close>

fun spaced :: "(rat \<Rightarrow> 'f::{minus,ord}) \<Rightarrow> 'f list \<Rightarrow> bool" where
  "spaced flt (t # u # ts) = (flt 0.25 \<le> u - t \<and> spaced flt (u # ts))"
| "spaced flt ts = True"

section \<open>Waves: the index loop of BuildWavesGeometry, lines 1180-1203\<close>

text \<open>
  The class Waves is not among the sources; what BuildWavesGeometry reads from it are
  the four counts.
\<close>

record Waves =
  RowCount :: int
  ColumnCount :: int
  VertexCount :: int
  TriangleCount :: int

text \<open>
  Modelled from the spec: a wave grid of \<open>m\<close> rows and \<open>n\<close> columns has \<open>m * n\<close>
  vertices and two triangles for every quad.
\<close>

definition new_Waves :: "int \<Rightarrow> int \<Rightarrow> Waves" where
  "new_Waves m n =
     \<lparr>RowCount = m, ColumnCount = n, VertexCount = m * n, TriangleCount = (m - 1) * (n - 1) * 2\<rparr>"

text \<open>
  The size of the vector and the variables \<^verbatim>\<open>m\<close>, \<^verbatim>\<open>n\<close>, \<^verbatim>\<open>i\<close>, \<^verbatim>\<open>j\<close>, \<^verbatim>\<open>k\<close> are 32-bit
  \<^verbatim>\<open>int\<close>. An operation on them whose result is not a 32-bit value is undefined
  behaviour: the model stops there with \<open>Overflow\<close>. A vector created with a negative
  size throws (\<open>LengthError\<close>), a failed assertion aborts, a write at a position
  outside the vector is \<open>OutOfBounds\<close>.
\<close>

datatype build_error = Overflow | LengthError | AssertionFailed | OutOfBounds

definition and_then :: "build_error + 'a \<Rightarrow> ('a \<Rightarrow> build_error + 'b) \<Rightarrow> build_error + 'b" where
  "and_then r f = (case r of Inl e \<Rightarrow> Inl e | Inr x \<Rightarrow> f x)"

definition int32 :: "int \<Rightarrow> build_error + int" where
  "int32 x = (if - 2147483648 \<le> x \<and> x \<le> 2147483647 then Inr x else Inl Overflow)"

definition add32 :: "int \<Rightarrow> int \<Rightarrow> build_error + int" where
  "add32 a b = int32 (a + b)"

definition sub32 :: "int \<Rightarrow> int \<Rightarrow> build_error + int" where
  "sub32 a b = int32 (a - b)"

definition mul32 :: "int \<Rightarrow> int \<Rightarrow> build_error + int" where
  "mul32 a b = int32 (a * b)"

text \<open>
  The index buffer is a vector of 16-bit values. Beside it the model keeps the list of
  the writes made so far, each with its position and the \<^verbatim>\<open>int\<close> value before its
  conversion to 16 bits.
\<close>

type_synonym index_buffer = "16 word list \<times> (nat \<times> int) list"

definition store :: "int \<Rightarrow> int \<Rightarrow> index_buffer \<Rightarrow> build_error + index_buffer" where
  "store k v b =
     (if 0 \<le> k \<and> nat k < length (fst b)
      then Inr ((fst b)[nat k := word_of_int v], snd b @ [(nat k, v)])
      else Inl OutOfBounds)"

text \<open>
  \<^verbatim>\<open>indices[pos] = val\<close>, and the two shapes of the right-hand sides: \<^verbatim>\<open>r*n + j\<close>
  and \<^verbatim>\<open>r*n + j + 1\<close>, where \<^verbatim>\<open>r\<close> is \<^verbatim>\<open>i\<close> or \<^verbatim>\<open>(i+1)\<close>.
\<close>

definition assign ::
  "build_error + int \<Rightarrow> build_error + int \<Rightarrow> index_buffer \<Rightarrow> build_error + index_buffer" where
  "assign pos val b = and_then pos (\<lambda>k. and_then val (\<lambda>v. store k v b))"

definition row_col :: "build_error + int \<Rightarrow> int \<Rightarrow> int \<Rightarrow> build_error + int" where
  "row_col r n j = and_then r (\<lambda>i. and_then (mul32 i n) (\<lambda>p. add32 p j))"

definition plus_one :: "build_error + int \<Rightarrow> build_error + int" where
  "plus_one r = and_then r (\<lambda>x. add32 x 1)"

text \<open>The six assignments of the loop body, lines 1192-1198.\<close>

definition store_quad :: "int \<Rightarrow> int \<Rightarrow> int \<Rightarrow> int \<Rightarrow> index_buffer \<Rightarrow> build_error + index_buffer" where
  "store_quad n i j k b =
     and_then (assign (Inr k) (row_col (Inr i) n j) b) (\<lambda>b.
     and_then (assign (add32 k 1) (plus_one (row_col (Inr i) n j)) b) (\<lambda>b.
     and_then (assign (add32 k 2) (row_col (add32 i 1) n j) b) (\<lambda>b.
     and_then (assign (add32 k 3) (row_col (add32 i 1) n j) b) (\<lambda>b.
     and_then (assign (add32 k 4) (plus_one (row_col (Inr i) n j)) b) (\<lambda>b.
     assign (add32 k 5) (plus_one (row_col (add32 i 1) n j)) b)))))"

text \<open>
  The inner loop \<^verbatim>\<open>for (j; j < n - 1; ++j)\<close> with \<^verbatim>\<open>k += 6\<close> at the end of its body, from
  the current \<open>j\<close>.
\<close>

function row_loop ::
  "int \<Rightarrow> int \<Rightarrow> int \<Rightarrow> int \<Rightarrow> index_buffer \<Rightarrow> build_error + (int \<times> index_buffer)" where
  "row_loop n i j k b =
     (case sub32 n 1 of
        Inl e \<Rightarrow> Inl e
      | Inr n1 \<Rightarrow>
          if j < n1 then
            (case store_quad n i j k b of
               Inl e \<Rightarrow> Inl e
             | Inr b' \<Rightarrow>
                 (case add32 k 6 of
                    Inl e \<Rightarrow> Inl e
                  | Inr k' \<Rightarrow>
                      (case add32 j 1 of
                         Inl e \<Rightarrow> Inl e
                       | Inr j' \<Rightarrow> row_loop n i j' k' b')))
          else Inr (k, b))"
  by pat_completeness auto
termination
  by (relation "measure (\<lambda>(n, i, j, k, b). nat (n - 1 - j))")
    (auto simp: sub32_def add32_def int32_def split: if_splits)

text \<open>The outer loop \<^verbatim>\<open>for (i; i < m - 1; ++i)\<close>, from the current \<open>i\<close>.\<close>

function grid_loop ::
  "int \<Rightarrow> int \<Rightarrow> int \<Rightarrow> int \<Rightarrow> index_buffer \<Rightarrow> build_error + (int \<times> index_buffer)" where
  "grid_loop m n i k b =
     (case sub32 m 1 of
        Inl e \<Rightarrow> Inl e
      | Inr m1 \<Rightarrow>
          if i < m1 then
            (case row_loop n i 0 k b of
               Inl e \<Rightarrow> Inl e
             | Inr (k', b') \<Rightarrow>
                 (case add32 i 1 of
                    Inl e \<Rightarrow> Inl e
                  | Inr i' \<Rightarrow> grid_loop m n i' k' b'))
          else Inr (k, b))"
  by pat_completeness auto
termination
  by (relation "measure (\<lambda>(m, n, i, k, b). nat (m - 1 - i))")
    (auto simp: sub32_def add32_def int32_def split: if_splits)

text \<open>
  Lines 1182-1203. The vector is created with \<^verbatim>\<open>3 * mWaves->TriangleCount()\<close> zeros
  (line 1182), then comes the assertion (line 1183), which is compiled only in a debug
  build (\<open>debug\<close>), then the loop.
\<close>

definition BuildWavesGeometry_indices :: "bool \<Rightarrow> Waves \<Rightarrow> build_error + index_buffer" where
  "BuildWavesGeometry_indices debug mWaves =
     (case mul32 3 (TriangleCount mWaves) of
        Inl e \<Rightarrow> Inl e
      | Inr count \<Rightarrow>
          if count < 0 then Inl LengthError
          else
            (let indices = replicate (nat count) (0 :: 16 word) in
             if debug \<and> \<not> VertexCount mWaves < 0xffff then Inl AssertionFailed
             else
               (case grid_loop (RowCount mWaves) (ColumnCount mWaves) 0 0 (indices, []) of
                  Inl e \<Rightarrow> Inl e
                | Inr (k, b) \<Rightarrow> Inr b)))"

text \<open>
  What the proofs keep about the loop: the first \<open>k\<close> positions have been written, in
  order and once each, every written value is a vertex number below \<open>V\<close>, and the vector
  of length \<open>L\<close> holds at each written position the 16-bit conversion of the value.
\<close>

definition written :: "nat \<Rightarrow> int \<Rightarrow> nat \<Rightarrow> index_buffer \<Rightarrow> bool" where
  "written L V k b =
     (length (fst b) = L \<and> k \<le> L \<and> map fst (snd b) = [0..<k]
      \<and> list_all (\<lambda>w. 0 \<le> snd w \<and> snd w < V \<and> fst b ! fst w = word_of_int (snd w)) (snd b))"

text \<open>The counts of a grid of 18921 rows and 18921 columns.\<close>

definition large_grid :: Waves where
  "large_grid =
     \<lparr>RowCount = 18921, ColumnCount = 18921, VertexCount = 358004241, TriangleCount = 715932800\<rparr>"

section \<open>Verification: the frame scheduler\<close>

lemma gpu_progress_keeps_inv:
  assumes "pace_inv s" and "suffix (c # q) (mFence s # mCommandQueue s)"
  shows "pace_inv (s\<lparr>mFence := c, mCommandQueue := q\<rparr>)"
proof -
  from assms(2) obtain pre where pre: "mFence s # mCommandQueue s = pre @ c # q"
    by (auto simp: suffix_def)
  have srt: "sorted_wrt (<) (pre @ c # q)" using assms(1) pre by (simp add: pace_inv_def)
  have le_c: "mFence s \<le> c"
  proof (cases pre)
    case Nil with pre show ?thesis by simp
  next
    case (Cons a as)
    with pre have "a = mFence s" by simp
    with srt Cons show ?thesis by (auto simp: sorted_wrt_append)
  qed
  have mem: "x \<le> c \<or> x \<in> set q" if "x \<in> set (mCommandQueue s)" for x
  proof -
    from that pre have "x \<in> set (pre @ c # q)" by (metis list.set_intros(2))
    then consider "x \<in> set pre" | "x = c" | "x \<in> set q" by auto
    then show ?thesis
      using srt by cases (auto simp: sorted_wrt_append)
  qed
  have "sorted_wrt (<) (c # q)" using srt by (simp add: sorted_wrt_append)
  moreover have "list_all (\<lambda>v. v \<le> mCurrentFence s) (c # q)"
  proof -
    have "list_all (\<lambda>v. v \<le> mCurrentFence s) (pre @ c # q)"
      using assms(1) pre by (simp add: pace_inv_def)
    then show ?thesis by simp
  qed
  moreover have "list_all (\<lambda>fr. Fence fr \<le> c \<or> Fence fr \<in> set q) (mFrameResources s)"
    using assms(1) le_c mem by (fastforce simp: pace_inv_def list_all_iff)
  ultimately show ?thesis using assms(1) by (simp add: pace_inv_def)
qed

lemma GpuSignal_inv: "pace_inv s \<Longrightarrow> pace_inv (GpuSignal s)"
proof (cases "mCommandQueue s")
  case Nil
  assume "pace_inv s" with Nil show ?thesis by (simp add: GpuSignal_def)
next
  case (Cons v q)
  assume "pace_inv s"
  then have "pace_inv (s\<lparr>mFence := v, mCommandQueue := q\<rparr>)"
    by (rule gpu_progress_keeps_inv) (simp add: Cons suffix_Cons)
  with Cons show ?thesis by (simp add: GpuSignal_def)
qed

lemma GpuSignal_obs: "obs (GpuSignal s) = obs s"
  by (simp add: GpuSignal_def obs_def split: list.splits)

lemma GpuSignal_pow: "pace_inv s \<Longrightarrow> pace_inv ((GpuSignal ^^ g) s) \<and> obs ((GpuSignal ^^ g) s) = obs s"
  by (induction g) (simp_all add: GpuSignal_inv GpuSignal_obs)

lemma WaitForFence_returns:
  "target \<le> c \<or> target \<in> set q \<Longrightarrow>
   \<exists>c' q'. WaitForFence target c q = Some (c', q') \<and> target \<le> c' \<and> suffix (c' # q') (c # q)"
proof (induction q arbitrary: c)
  case Nil
  then show ?case by auto
next
  case (Cons v q)
  show ?case
  proof (cases "c < target")
    case False
    then show ?thesis by auto
  next
    case True
    with Cons.prems have "target \<le> v \<or> target \<in> set q" by auto
    from Cons.IH [OF this] obtain c' q' where
      "WaitForFence target v q = Some (c', q')" "target \<le> c'" "suffix (c' # q') (v # q)"
      by blast
    with True show ?thesis by (auto simp: suffix_Cons)
  qed
qed

lemma Update_returns:
  assumes "pace_inv s"
  shows "\<exists>s'. Update s = Some s' \<and> pace_inv s' \<and> \<not> MustWait s'
     \<and> mCurrFrameResourceIndex s' = (mCurrFrameResourceIndex s + 1) mod 3
     \<and> mCurrentFence s' = mCurrentFence s \<and> mFrameResources s' = mFrameResources s"
proof -
  let ?s = "CycleFrameResource s"
  have inv: "pace_inv ?s"
    using assms by (simp add: pace_inv_def CycleFrameResource_def gNumFrameResources_def)
  have flds: "mCurrFrameResourceIndex ?s = (mCurrFrameResourceIndex s + 1) mod 3"
    "mCurrentFence ?s = mCurrentFence s" "mFrameResources ?s = mFrameResources s"
    by (simp_all add: CycleFrameResource_def gNumFrameResources_def)
  show ?thesis
  proof (cases "MustWait ?s")
    case False
    then have "Update s = Some ?s" by (simp add: Update_def)
    with inv flds False show ?thesis by simp
  next
    case True
    let ?t = "Fence (mCurrFrameResource ?s)"
    have "mCurrFrameResource ?s \<in> set (mFrameResources ?s)"
      using inv by (simp add: pace_inv_def mCurrFrameResource_def)
    then have "?t \<le> mFence ?s \<or> ?t \<in> set (mCommandQueue ?s)"
      using inv by (auto simp: pace_inv_def list_all_iff)
    from WaitForFence_returns [OF this] obtain c' q' where
      w: "WaitForFence ?t (mFence ?s) (mCommandQueue ?s) = Some (c', q')" "?t \<le> c'"
         "suffix (c' # q') (mFence ?s # mCommandQueue ?s)"
      by blast
    let ?s' = "?s\<lparr>mFence := c', mCommandQueue := q'\<rparr>"
    have "Update s = Some ?s'" using True w(1) by (simp add: Update_def)
    moreover have "pace_inv ?s'" using inv w(3) by (rule gpu_progress_keeps_inv)
    moreover have "\<not> MustWait ?s'" using w(2) by (simp add: MustWait_def mCurrFrameResource_def)
    ultimately show ?thesis using flds by simp
  qed
qed

lemma Draw_inv: "pace_inv s \<Longrightarrow> pace_inv (Draw s)"
  apply (simp add: pace_inv_def Draw_def Let_def sorted_wrt_append list_all_iff)
  apply (auto dest!: set_update_subset_insert [THEN subsetD])
  done

lemma Draw_obs: "obs (Draw s) = (mCurrFrameResourceIndex s, mCurrentFence s + 1,
    (map Fence (mFrameResources s))[mCurrFrameResourceIndex s := mCurrentFence s + 1])"
  by (simp add: obs_def Draw_def Let_def map_update)

lemma frame_returns:
  assumes "pace_inv s"
  shows "\<exists>s'. frame g s = Some s' \<and> pace_inv s' \<and> obs s' = frame_obs (obs s)"
proof -
  let ?g = "(GpuSignal ^^ g) s"
  have g: "pace_inv ?g" "obs ?g = obs s" using GpuSignal_pow [OF assms] by auto
  from Update_returns [OF g(1)] obtain u where
    u: "Update ?g = Some u" "pace_inv u"
       "mCurrFrameResourceIndex u = (mCurrFrameResourceIndex ?g + 1) mod 3"
       "mCurrentFence u = mCurrentFence ?g" "mFrameResources u = mFrameResources ?g"
    by blast
  have "frame g s = Some (Draw u)" using u(1) by (simp add: frame_def)
  moreover have "pace_inv (Draw u)" using u(2) by (rule Draw_inv)
  moreover have "obs (Draw u) = frame_obs (obs s)"
  proof -
    have "obs (Draw u) = (mCurrFrameResourceIndex u, mCurrentFence u + 1,
        (map Fence (mFrameResources u))[mCurrFrameResourceIndex u := mCurrentFence u + 1])"
      by (rule Draw_obs)
    also have "\<dots> = frame_obs (obs s)"
      using u(3,4,5) g(2) by (simp add: frame_obs_def obs_def)
    finally show ?thesis .
  qed
  ultimately show ?thesis by blast
qed

lemma run_frames_returns:
  "pace_inv s \<Longrightarrow> \<exists>ss. run_frames gs s = Some ss \<and> map obs ss = obs_trace (length gs) (obs s)"
proof (induction gs arbitrary: s)
  case Nil
  then show ?case by simp
next
  case (Cons g gs)
  from frame_returns [OF Cons.prems] obtain s' where
    s': "frame g s = Some s'" "pace_inv s'" "obs s' = frame_obs (obs s)" by blast
  from Cons.IH [OF s'(2)] obtain ss where
    ss: "run_frames gs s' = Some ss" "map obs ss = obs_trace (length gs) (obs s')" by blast
  have "run_frames (g # gs) s = Some (s' # ss)"
    by (simp add: s'(1) ss(1))
  moreover have "map obs (s' # ss) = obs_trace (length (g # gs)) (obs s)"
    by (simp add: ss(2) s'(3))
  ultimately show ?case by blast
qed

lemma scenario_start_inv: "pace_inv (scenario_start :: 'f FrameSync)"
  by (simp add: pace_inv_def scenario_start_def gNumFrameResources_def new_FrameResource_def
      numeral_3_eq_3)

lemma scenario_start_obs: "obs (scenario_start :: 'f FrameSync) = (0, 0, [0, 0, 0])"
  by (simp add: obs_def scenario_start_def new_FrameResource_def numeral_3_eq_3)

lemma obs_trace_5: "obs_trace 5 (0, 0, [0, 0, 0]) =
  [(1, 1, [0, 1, 0]), (2, 2, [0, 1, 2]), (0, 3, [3, 1, 2]), (1, 4, [3, 4, 2]), (2, 5, [3, 4, 5])]"
  by code_simp


lemma stamped_obs:
  assumes "obs s = (i, f, fs)" and "i < length fs"
  shows "mCurrFrameResourceIndex s = i \<and> Fence (mCurrFrameResource s) = fs ! i"
proof -
  from assms(1) have i: "mCurrFrameResourceIndex s = i" and fs: "map Fence (mFrameResources s) = fs"
    by (simp_all add: obs_def)
  from fs assms(2) have "i < length (mFrameResources s)" by auto
  then have "map Fence (mFrameResources s) ! i = Fence (mFrameResources s ! i)" by (rule nth_map)
  with i fs show ?thesis by (simp add: mCurrFrameResource_def)
qed

text \<open>
  Claim C2, as amended. From the start state (current fence 0, ring index 0, three slots
  with fence 0), five frames of Update followed by Draw always return, whatever progress
  the GPU makes between them. The fence stamped into the current slot is 1, 2, 3, 4, 5.
  Update advances the ring index before the frame's slot is used, so the slot written and
  stamped in the five frames is 1, 2, 0, 1, 2; the values 0, 1, 2, 0, 1 are the ring
  index on entry to each frame.
\<close>

theorem five_frames:
  assumes "length gs = 5"
  shows "\<exists>ss. run_frames gs (scenario_start :: 'f FrameSync) = Some ss
     \<and> map (\<lambda>s. Fence (mCurrFrameResource s)) ss = [1, 2, 3, 4, 5]
     \<and> map mCurrFrameResourceIndex ss = [1, 2, 0, 1, 2]
     \<and> map mCurrFrameResourceIndex (scenario_start # butlast ss) = [0, 1, 2, 0, 1]"
proof -
  from run_frames_returns [OF scenario_start_inv, of gs] obtain ss where
    ss: "run_frames gs (scenario_start :: 'f FrameSync) = Some ss"
        "map obs ss = obs_trace 5 (0, 0, [0, 0, 0])"
    using assms by (auto simp: scenario_start_obs)
  from ss(2) obtain a b c d e where
    l: "ss = [a, b, c, d, e]" and
    o: "obs a = (1, 1, [0, 1, 0])" "obs b = (2, 2, [0, 1, 2])" "obs c = (0, 3, [3, 1, 2])"
       "obs d = (1, 4, [3, 4, 2])" "obs e = (2, 5, [3, 4, 5])"
    unfolding obs_trace_5 by (auto simp: map_eq_Cons_conv)
  have a: "mCurrFrameResourceIndex a = 1 \<and> Fence (mCurrFrameResource a) = 1"
    using stamped_obs [OF o(1)] by simp
  have b: "mCurrFrameResourceIndex b = 2 \<and> Fence (mCurrFrameResource b) = 2"
    using stamped_obs [OF o(2)] by simp
  have c: "mCurrFrameResourceIndex c = 0 \<and> Fence (mCurrFrameResource c) = 3"
    using stamped_obs [OF o(3)] by simp
  have d: "mCurrFrameResourceIndex d = 1 \<and> Fence (mCurrFrameResource d) = 4"
    using stamped_obs [OF o(4)] by simp
  have e: "mCurrFrameResourceIndex e = 2 \<and> Fence (mCurrFrameResource e) = 5"
    using stamped_obs [OF o(5)] by simp
  have z: "mCurrFrameResourceIndex (scenario_start :: 'f FrameSync) = 0"
    by (simp add: scenario_start_def)
  show ?thesis using ss(1) l a b c d e z by simp
qed

theorem five_frames_witness:
  "length [0, 2, 0, 1, 7 :: nat] = 5 \<and> (\<exists>ss. run_frames [0, 2, 0, 1, 7] (scenario_start :: unit FrameSync) = Some ss
     \<and> map (\<lambda>s. Fence (mCurrFrameResource s)) ss = [1, 2, 3, 4, 5]
     \<and> map mCurrFrameResourceIndex ss = [1, 2, 0, 1, 2]
     \<and> map mCurrFrameResourceIndex (scenario_start # butlast ss) = [0, 1, 2, 0, 1])"
  using five_frames [of "[0, 2, 0, 1, 7]"] by simp

text \<open>
  The claim as stated fails: with an idle GPU the five frames end with ring index
  1, 2, 0, 1, 2, not 0, 1, 2, 0, 1.
\<close>

theorem ring_index_counterexample:
  "\<not> (\<exists>ss. run_frames [0, 0, 0, 0, 0] (scenario_start :: unit FrameSync) = Some ss
     \<and> map (\<lambda>s. Fence (mCurrFrameResource s)) ss = [1, 2, 3, 4, 5]
     \<and> map mCurrFrameResourceIndex ss = [0, 1, 2, 0, 1])"
proof -
  have "map_option (map mCurrFrameResourceIndex)
      (run_frames [0, 0, 0, 0, 0] (scenario_start :: unit FrameSync)) = Some [1, 2, 0, 1, 2]"
    by code_simp
  then show ?thesis by auto
qed

subsection \<open>Update against the GPU, and the submissions in flight\<close>

lemma GpuSignal_fields [simp]:
  "mFrameResources (GpuSignal s) = mFrameResources s"
  "mCurrFrameResourceIndex (GpuSignal s) = mCurrFrameResourceIndex s"
  "mCurrentFence (GpuSignal s) = mCurrentFence s"
  by (simp_all add: GpuSignal_def split: list.splits)

lemma WaitForFence_pops:
  "WaitForFence t c q = Some (c', q') \<Longrightarrow> mFence s = c \<Longrightarrow> mCommandQueue s = q \<Longrightarrow>
   \<exists>k. (GpuSignal ^^ k) s = s\<lparr>mFence := c', mCommandQueue := q'\<rparr>
     \<and> (0 < k \<longleftrightarrow> c < t)
     \<and> (\<forall>j<k. mFence ((GpuSignal ^^ j) s) < t)
     \<and> \<not> c' < t"
proof (induction q arbitrary: c s)
  case Nil
  then have "\<not> c < t" "c' = c" "q' = []" by (auto split: if_splits)
  with Nil.prems(2,3) have "(GpuSignal ^^ 0) s = s\<lparr>mFence := c', mCommandQueue := q'\<rparr>" by simp
  with \<open>\<not> c < t\<close> \<open>c' = c\<close> show ?case by blast
next
  case (Cons v q)
  show ?case
  proof (cases "c < t")
    case False
    with Cons.prems(1) have "c' = c" "q' = v # q" by auto
    with Cons.prems(2,3) have "(GpuSignal ^^ 0) s = s\<lparr>mFence := c', mCommandQueue := q'\<rparr>" by simp
    with False \<open>c' = c\<close> show ?thesis by blast
  next
    case True
    let ?g = "GpuSignal s"
    have g: "?g = s\<lparr>mFence := v, mCommandQueue := q\<rparr>"
      using Cons.prems(3) by (simp add: GpuSignal_def)
    from True Cons.prems(1) have w: "WaitForFence t v q = Some (c', q')" by simp
    from Cons.IH [OF w, of ?g] g obtain k where
      k: "(GpuSignal ^^ k) ?g = ?g\<lparr>mFence := c', mCommandQueue := q'\<rparr>"
         "\<forall>j<k. mFence ((GpuSignal ^^ j) ?g) < t" "\<not> c' < t"
      by auto
    have 1: "(GpuSignal ^^ Suc k) s = s\<lparr>mFence := c', mCommandQueue := q'\<rparr>"
      using k(1) g by (simp add: funpow_swap1)
    have 2: "mFence ((GpuSignal ^^ j) s) < t" if "j < Suc k" for j
    proof (cases j)
      case 0
      with True Cons.prems(2) show ?thesis by simp
    next
      case (Suc i)
      with that k(2) show ?thesis by (simp add: funpow_swap1)
    qed
    from 1 2 k(3) True show ?thesis by blast
  qed
qed

lemma Update_pops:
  assumes "Update s = Some s'"
  shows "\<exists>k. s' = (GpuSignal ^^ k) (CycleFrameResource s)
     \<and> (0 < k \<longleftrightarrow> MustWait (CycleFrameResource s))
     \<and> (\<forall>j<k. mFence ((GpuSignal ^^ j) (CycleFrameResource s))
            < Fence (mCurrFrameResource (CycleFrameResource s)))
     \<and> Fence (mCurrFrameResource (CycleFrameResource s)) \<le> mFence s'"
proof (cases "MustWait (CycleFrameResource s)")
  case False
  with assms have "s' = (GpuSignal ^^ 0) (CycleFrameResource s)" by (simp add: Update_def)
  moreover from False have "Fence (mCurrFrameResource (CycleFrameResource s))
      \<le> mFence ((GpuSignal ^^ 0) (CycleFrameResource s))"
    by (auto simp: MustWait_def)
  ultimately show ?thesis using False by blast
next
  case True
  let ?s = "CycleFrameResource s"
  let ?t = "Fence (mCurrFrameResource ?s)"
  from True assms obtain c' q' where
    w: "WaitForFence ?t (mFence ?s) (mCommandQueue ?s) = Some (c', q')"
    and s': "s' = ?s\<lparr>mFence := c', mCommandQueue := q'\<rparr>"
    by (auto simp: Update_def Let_def split: option.splits)
  from WaitForFence_pops [OF w refl refl] obtain k where
    k: "(GpuSignal ^^ k) ?s = ?s\<lparr>mFence := c', mCommandQueue := q'\<rparr>"
       "0 < k \<longleftrightarrow> mFence ?s < ?t" "\<forall>j<k. mFence ((GpuSignal ^^ j) ?s) < ?t" "\<not> c' < ?t"
    by blast
  from True have "mFence ?s < ?t" by (simp add: MustWait_def)
  with k(2) have pos: "0 < k \<longleftrightarrow> MustWait ?s" using True by simp
  from k(1) s' have e: "s' = (GpuSignal ^^ k) ?s" by simp
  from k(4) s' have "?t \<le> mFence s'" by simp
  with e pos k(3) show ?thesis by blast
qed

lemma in_flight_GpuSignal:
  assumes "length (mCommandQueue s) \<le> length h" and "map snd (in_flight s h) = mCommandQueue s"
  shows "length (mCommandQueue (GpuSignal s)) \<le> length h
     \<and> map snd (in_flight (GpuSignal s) h) = mCommandQueue (GpuSignal s)"
proof (cases "mCommandQueue s")
  case Nil
  with assms show ?thesis by (simp add: GpuSignal_def in_flight_def)
next
  case (Cons v q)
  let ?n = "length h - Suc (length q)"
  from assms(1) Cons have n: "length h - length q = Suc ?n" by simp
  from assms(2) Cons have "map snd (drop ?n h) = v # q" by (simp add: in_flight_def)
  then have "map snd (tl (drop ?n h)) = q" by (simp add: map_tl)
  then have "map snd (drop (Suc ?n) h) = q" by (simp add: drop_Suc tl_drop)
  with assms(1) Cons n show ?thesis by (simp add: GpuSignal_def in_flight_def)
qed

lemma in_flight_GpuSignal_pow:
  assumes "length (mCommandQueue s) \<le> length h" and "map snd (in_flight s h) = mCommandQueue s"
  shows "length (mCommandQueue ((GpuSignal ^^ k) s)) \<le> length h
     \<and> map snd (in_flight ((GpuSignal ^^ k) s) h) = mCommandQueue ((GpuSignal ^^ k) s)"
  using assms by (induction k) (simp_all add: in_flight_GpuSignal)

lemma GpuSignal_pow_frs [simp]: "mFrameResources ((GpuSignal ^^ k) s) = mFrameResources s"
  by (induction k) simp_all

lemma MustWait_GpuSignal:
  assumes "pace_inv s" and "\<not> MustWait s"
  shows "\<not> MustWait (GpuSignal s)"
proof (cases "mCommandQueue s")
  case Nil
  with assms(2) show ?thesis by (simp add: GpuSignal_def)
next
  case (Cons v q)
  with assms(1) have "mFence s < v" by (simp add: pace_inv_def)
  with assms(2) Cons show ?thesis
    by (auto simp: GpuSignal_def MustWait_def mCurrFrameResource_def)
qed

lemma pace_inv_Fence_le:
  assumes "pace_inv s" and "i < gNumFrameResources"
  shows "Fence (mFrameResources s ! i) \<le> mCurrentFence s"
proof -
  from assms have "mFrameResources s ! i \<in> set (mFrameResources s)" by (simp add: pace_inv_def)
  with assms(1) have "Fence (mFrameResources s ! i) \<le> mFence s
      \<or> Fence (mFrameResources s ! i) \<in> set (mCommandQueue s)"
    by (auto simp: pace_inv_def list_all_iff)
  with assms(1) show ?thesis by (auto simp: pace_inv_def list_all_iff)
qed

lemma initial_pace_inv: "initial s \<Longrightarrow> pace_inv s"
  by (auto simp: initial_def pace_inv_def gNumFrameResources_def list_all_iff)

lemma flight_inv_step:
  assumes "frame_step c c'" and "flight_inv c"
  shows "flight_inv c'"
  using assms
proof (induction rule: frame_step.induct)
  case (update s s' h)
  then have inv: "pace_inv s" and len: "length (mCommandQueue s) \<le> length h"
    and fl: "map snd (in_flight s h) = mCommandQueue s"
    and sub: "list_all (\<lambda>x. fst x < gNumFrameResources \<and> snd x \<le> Fence (mFrameResources s ! fst x)) h"
    by (simp_all add: flight_inv_def)
  from Update_returns [OF inv] update.hyps have
    r: "pace_inv s'" "\<not> MustWait s'" "mFrameResources s' = mFrameResources s" by auto
  from Update_pops [OF update.hyps] obtain k where
    k: "s' = (GpuSignal ^^ k) (CycleFrameResource s)" by blast
  have "length (mCommandQueue (CycleFrameResource s)) \<le> length h"
    "map snd (in_flight (CycleFrameResource s) h) = mCommandQueue (CycleFrameResource s)"
    using len fl by (simp_all add: CycleFrameResource_def in_flight_def)
  from in_flight_GpuSignal_pow [OF this, of k] k have
    "length (mCommandQueue s') \<le> length h" "map snd (in_flight s' h) = mCommandQueue s'"
    by simp_all
  with r sub show ?case by (simp add: flight_inv_def)
next
  case (draw s h)
  then have inv: "pace_inv s" and len: "length (mCommandQueue s) \<le> length h"
    and fl: "map snd (in_flight s h) = mCommandQueue s"
    and sub: "list_all (\<lambda>x. fst x < gNumFrameResources \<and> snd x \<le> Fence (mFrameResources s ! fst x)) h"
    by (simp_all add: flight_inv_def)
  let ?i = "mCurrFrameResourceIndex s" and ?f = "mCurrentFence s + 1"
  let ?h = "h @ [(?i, ?f)]"
  from inv have i: "?i < gNumFrameResources" "?i < length (mFrameResources s)"
    by (simp_all add: pace_inv_def)
  have q: "mCommandQueue (Draw s) = mCommandQueue s @ [?f]" by (simp add: Draw_def Let_def)
  have frs: "mFrameResources (Draw s)
      = (mFrameResources s)[?i := (mFrameResources s ! ?i)\<lparr>Fence := ?f\<rparr>]"
    by (simp add: Draw_def Let_def)
  have 1: "pace_inv (Draw s)" using inv by (rule Draw_inv)
  have 2: "length (mCommandQueue (Draw s)) \<le> length ?h" using len q by simp
  have 3: "map snd (in_flight (Draw s) ?h) = mCommandQueue (Draw s)"
    using len fl q by (simp add: in_flight_def)
  have old: "fst x < gNumFrameResources \<and> snd x \<le> Fence (mFrameResources (Draw s) ! fst x)"
    if "x \<in> set h" for x
  proof -
    from sub that have x: "fst x < gNumFrameResources" "snd x \<le> Fence (mFrameResources s ! fst x)"
      by (auto simp: list_all_iff)
    show ?thesis
    proof (cases "fst x = ?i")
      case True
      from pace_inv_Fence_le [OF inv i(1)] x(2) True have "snd x \<le> ?f" by simp
      with True i(2) x(1) show ?thesis by (simp add: frs)
    next
      case False
      with x show ?thesis by (simp add: frs)
    qed
  qed
  have new: "?i < gNumFrameResources \<and> ?f \<le> Fence (mFrameResources (Draw s) ! ?i)"
    using i by (simp add: frs)
  have 4: "list_all (\<lambda>x. fst x < gNumFrameResources
      \<and> snd x \<le> Fence (mFrameResources (Draw s) ! fst x)) ?h"
    using old new by (simp add: list_all_iff)
  from 1 2 3 4 show ?case by (simp add: flight_inv_def)
next
  case (gpu s p h)
  then have inv: "pace_inv s" and len: "length (mCommandQueue s) \<le> length h"
    and fl: "map snd (in_flight s h) = mCommandQueue s"
    and sub: "list_all (\<lambda>x. fst x < gNumFrameResources \<and> snd x \<le> Fence (mFrameResources s ! fst x)) h"
    and wr: "p = Writing \<longrightarrow> \<not> MustWait s"
    by (simp_all add: flight_inv_def)
  from inv have "pace_inv (GpuSignal s)" by (rule GpuSignal_inv)
  moreover from wr inv have "p = Writing \<longrightarrow> \<not> MustWait (GpuSignal s)"
    by (simp add: MustWait_GpuSignal)
  ultimately show ?case
    using in_flight_GpuSignal [OF len fl] sub by (simp add: flight_inv_def)
qed

lemma reachable_flight_inv: "reachable c \<Longrightarrow> flight_inv c"
proof (induction rule: reachable.induct)
  case (start s)
  then show ?case by (simp add: flight_inv_def in_flight_def initial_pace_inv initial_def)
next
  case (step c c')
  then show ?case by (simp add: flight_inv_step)
qed

lemma writing_slot_retired:
  assumes "flight_inv (Writing, s, h)"
  shows "mCurrFrameResourceIndex s \<notin> fst ` set (in_flight s h)
     \<and> Fence (mCurrFrameResource s) \<le> mFence s"
proof -
  from assms have inv: "pace_inv s" and fl: "map snd (in_flight s h) = mCommandQueue s"
    and sub: "list_all (\<lambda>x. fst x < gNumFrameResources \<and> snd x \<le> Fence (mFrameResources s ! fst x)) h"
    and nw: "\<not> MustWait s"
    by (simp_all add: flight_inv_def)
  from nw have le: "Fence (mCurrFrameResource s) \<le> mFence s" by (auto simp: MustWait_def)
  have "mCurrFrameResourceIndex s \<notin> fst ` set (in_flight s h)"
  proof
    assume "mCurrFrameResourceIndex s \<in> fst ` set (in_flight s h)"
    then obtain x where x: "x \<in> set (in_flight s h)" and e: "fst x = mCurrFrameResourceIndex s"
      by auto
    from x have "x \<in> set h" unfolding in_flight_def by (rule in_set_dropD)
    with sub e have "snd x \<le> Fence (mCurrFrameResource s)"
      by (auto simp: list_all_iff mCurrFrameResource_def)
    moreover from x have "snd x \<in> set (map snd (in_flight s h))" by simp
    then have "snd x \<in> set (mCommandQueue s)" unfolding fl .
    with inv have "mFence s < snd x" by (auto simp: pace_inv_def)
    ultimately show False using le by simp
  qed
  with le show ?thesis by simp
qed

text \<open>
  Claim C1. In every reachable state of the Update/Draw step relation, with the GPU
  working through its queue at any pace: Update returns, with the ring index at
  (previous slot + 1) mod 3, in the state in which the GPU has got through \<open>k\<close> more
  signals. The CPU has waited (\<open>k > 0\<close>) exactly when the fence recorded in the
  selected slot is nonzero and the completed value of the fence is below it, and it
  waits as long as the completed value is below the recorded fence and no longer. The
  submissions in flight are those of the signals pending in the queue. Consequently,
  while the CPU writes a slot, no submission that reads that slot is in flight on the
  GPU: the commands recorded with the slot have completed.
\<close>

theorem frame_scheduler_safe:
  assumes "reachable (p, s, h)"
  shows "(\<exists>k. Update s = Some ((GpuSignal ^^ k) (CycleFrameResource s))
        \<and> mCurrFrameResourceIndex ((GpuSignal ^^ k) (CycleFrameResource s))
            = (mCurrFrameResourceIndex s + 1) mod 3
        \<and> (0 < k \<longleftrightarrow>
             Fence (mFrameResources s ! ((mCurrFrameResourceIndex s + 1) mod 3)) \<noteq> 0
             \<and> mFence s < Fence (mFrameResources s ! ((mCurrFrameResourceIndex s + 1) mod 3)))
        \<and> (\<forall>j<k. mFence ((GpuSignal ^^ j) (CycleFrameResource s))
               < Fence (mFrameResources s ! ((mCurrFrameResourceIndex s + 1) mod 3)))
        \<and> Fence (mFrameResources s ! ((mCurrFrameResourceIndex s + 1) mod 3))
            \<le> mFence ((GpuSignal ^^ k) (CycleFrameResource s)))
    \<and> map snd (in_flight s h) = mCommandQueue s
    \<and> (p = Writing \<longrightarrow>
          mCurrFrameResourceIndex s \<notin> fst ` set (in_flight s h)
          \<and> Fence (mCurrFrameResource s) \<le> mFence s)"
proof -
  let ?c = "CycleFrameResource s"
  let ?t = "Fence (mFrameResources s ! ((mCurrFrameResourceIndex s + 1) mod 3))"
  from reachable_flight_inv [OF assms] have fi: "flight_inv (p, s, h)" .
  then have inv: "pace_inv s" and fl: "map snd (in_flight s h) = mCommandQueue s"
    by (simp_all add: flight_inv_def)
  from Update_returns [OF inv] obtain s' where s': "Update s = Some s'" by blast
  from Update_pops [OF s'] obtain k where
    k: "s' = (GpuSignal ^^ k) ?c" "0 < k \<longleftrightarrow> MustWait ?c"
       "\<forall>j<k. mFence ((GpuSignal ^^ j) ?c) < Fence (mCurrFrameResource ?c)"
       "Fence (mCurrFrameResource ?c) \<le> mFence s'"
    by blast
  have t: "Fence (mCurrFrameResource ?c) = ?t"
    by (simp add: mCurrFrameResource_def CycleFrameResource_def gNumFrameResources_def)
  have mw: "MustWait ?c \<longleftrightarrow> ?t \<noteq> 0 \<and> mFence s < ?t"
    unfolding MustWait_def t by (simp add: CycleFrameResource_def)
  have ix: "mCurrFrameResourceIndex ((GpuSignal ^^ k) ?c) = (mCurrFrameResourceIndex s + 1) mod 3"
    by (induction k) (simp_all add: CycleFrameResource_def gNumFrameResources_def)
  have a: "\<exists>k. Update s = Some ((GpuSignal ^^ k) ?c)
        \<and> mCurrFrameResourceIndex ((GpuSignal ^^ k) ?c) = (mCurrFrameResourceIndex s + 1) mod 3
        \<and> (0 < k \<longleftrightarrow> ?t \<noteq> 0 \<and> mFence s < ?t)
        \<and> (\<forall>j<k. mFence ((GpuSignal ^^ j) ?c) < ?t)
        \<and> ?t \<le> mFence ((GpuSignal ^^ k) ?c)"
    using s' k ix unfolding t mw by blast
  have b: "p = Writing \<longrightarrow> mCurrFrameResourceIndex s \<notin> fst ` set (in_flight s h)
          \<and> Fence (mCurrFrameResource s) \<le> mFence s"
    using fi writing_slot_retired [of s h] by blast
  from a fl b show ?thesis by blast
qed

lemma Update_no_wait:
  "\<not> MustWait (CycleFrameResource s) \<Longrightarrow> Update s = Some (CycleFrameResource s)"
  by (simp add: Update_def)

lemma reachable_frame:
  assumes "reachable (BetweenFrames, s, h)" and "\<not> MustWait (CycleFrameResource s)"
  shows "reachable (BetweenFrames, Draw (CycleFrameResource s),
      h @ [(mCurrFrameResourceIndex (CycleFrameResource s), mCurrentFence (CycleFrameResource s) + 1)])"
proof -
  from assms(2) have "frame_step (BetweenFrames, s, h) (Writing, CycleFrameResource s, h)"
    by (intro frame_step.update Update_no_wait)
  with assms(1) have "reachable (Writing, CycleFrameResource s, h)" by (rule reachable.step)
  then show ?thesis using frame_step.draw by (rule reachable.step)
qed

lemma reachable_frame3: "reachable (BetweenFrames, frame3, [(1, 1), (2, 2), (0, 3)])"
proof -
  have "initial (scenario_start :: unit FrameSync)" by code_simp
  then have r0: "reachable (BetweenFrames, scenario_start :: unit FrameSync, [])"
    by (rule reachable.start)
  have n1: "\<not> MustWait (CycleFrameResource (scenario_start :: unit FrameSync))" by code_simp
  have v1: "mCurrFrameResourceIndex (CycleFrameResource (scenario_start :: unit FrameSync)) = 1"
    "mCurrentFence (CycleFrameResource (scenario_start :: unit FrameSync)) + 1 = 1" by code_simp+
  from reachable_frame [OF r0 n1] have r1: "reachable (BetweenFrames, frame1, [(1, 1)])"
    unfolding v1 frame1_def by simp
  have n2: "\<not> MustWait (CycleFrameResource frame1)" by code_simp
  have v2: "mCurrFrameResourceIndex (CycleFrameResource frame1) = 2"
    "mCurrentFence (CycleFrameResource frame1) + 1 = 2" by code_simp+
  from reachable_frame [OF r1 n2] have r2: "reachable (BetweenFrames, frame2, [(1, 1), (2, 2)])"
    unfolding v2 frame2_def by simp
  have n3: "\<not> MustWait (CycleFrameResource frame2)" by code_simp
  have v3: "mCurrFrameResourceIndex (CycleFrameResource frame2) = 0"
    "mCurrentFence (CycleFrameResource frame2) + 1 = 3" by code_simp+
  from reachable_frame [OF r2 n3] show ?thesis
    unfolding v3 frame3_def by simp
qed

theorem frame_scheduler_safe_witness:
  "reachable (Writing, reuse_slot, [(1, 1), (2, 2), (0, 3)])
   \<and> Update frame3 = Some reuse_slot
   \<and> mCurrFrameResourceIndex reuse_slot = 1
   \<and> in_flight reuse_slot [(1, 1), (2, 2), (0, 3)] = [(2, 2), (0, 3)]
   \<and> mCurrFrameResourceIndex reuse_slot \<notin> fst ` set (in_flight reuse_slot [(1, 1), (2, 2), (0, 3)])"
proof -
  let ?c = "CycleFrameResource frame3"
  from frame_scheduler_safe [OF reachable_frame3] obtain k where
    k: "Update frame3 = Some ((GpuSignal ^^ k) ?c)"
       "0 < k \<longleftrightarrow> Fence (mFrameResources frame3 ! ((mCurrFrameResourceIndex frame3 + 1) mod 3)) \<noteq> 0
          \<and> mFence frame3 < Fence (mFrameResources frame3 ! ((mCurrFrameResourceIndex frame3 + 1) mod 3))"
       "\<forall>j<k. mFence ((GpuSignal ^^ j) ?c)
          < Fence (mFrameResources frame3 ! ((mCurrFrameResourceIndex frame3 + 1) mod 3))"
    by blast
  have f: "Fence (mFrameResources frame3 ! ((mCurrFrameResourceIndex frame3 + 1) mod 3)) = 1"
    "mFence frame3 = 0" "mFence (GpuSignal ?c) = 1" by code_simp+
  from k(2) f have pos: "0 < k" by simp
  have "\<not> 1 < k"
  proof
    assume "1 < k"
    with k(3) have "mFence ((GpuSignal ^^ 1) ?c) < 1" unfolding f by blast
    with f(3) show False by simp
  qed
  with pos have "k = 1" by simp
  with k(1) have u: "Update frame3 = Some reuse_slot" by (simp add: reuse_slot_def)
  then have "frame_step (BetweenFrames, frame3, [(1, 1), (2, 2), (0, 3)])
      (Writing, reuse_slot, [(1, 1), (2, 2), (0, 3)])"
    by (rule frame_step.update)
  with reachable_frame3 have r: "reachable (Writing, reuse_slot, [(1, 1), (2, 2), (0, 3)])"
    by (rule reachable.step)
  have v: "mCurrFrameResourceIndex reuse_slot = 1"
    "in_flight reuse_slot [(1, 1), (2, 2), (0, 3)] = [(2, 2), (0, 3)]" by code_simp+
  from frame_scheduler_safe [OF r] r u v show ?thesis by simp
qed

section \<open>Verification: scene construction\<close>

lemma ObjCBIndex_make [simp]:
  "ObjCBIndex (make_RenderItem flt DrawArgs world tex cbIndex mat geo submesh topology) = cbIndex"
  by (simp add: make_RenderItem_def)

lemma ObjCBIndex_wall_block [simp]: "ObjCBIndex (wall_block flt DrawArgs mat tex scale pos w) = w"
  by (simp add: wall_block_def split: prod.splits)

lemma ObjCBIndex_tower_block [simp]:
  "ObjCBIndex (tower_block flt DrawArgs mat geo submesh scale pos w) = w"
  by (simp add: tower_block_def split: prod.splits)

lemma mAllRitems_push [simp]: "mAllRitems (push_RenderItem layer ri s) = mAllRitems s @ [ri]"
  by (simp add: push_RenderItem_def)

lemma cb_indexed_push:
  assumes "cb_indexed (n, s)" and "ObjCBIndex ri = word_of_int n"
  shows "cb_indexed (n + 1, push_RenderItem layer ri s)"
  using assms by (simp add: cb_indexed_def)

lemma cb_indexed_add:
  assumes "cb_indexed b" and "\<And>w. ObjCBIndex (item w) = w"
  shows "cb_indexed (add_RenderItem layer item b)"
proof (cases b)
  case (Pair n s)
  with assms show ?thesis
    by (simp add: add_RenderItem_def cb_indexed_push)
qed

lemma cb_indexed_maze:
  assumes "cb_indexed b"
  shows "cb_indexed ((case x of (sX, sZ, pX, pZ) \<Rightarrow> \<lambda>(funcCBIndex, s).
           (funcCBIndex + 1,
            BuildMazePart flt DrawArgs (flt sX) (flt sZ) (flt pX) (flt pZ) funcCBIndex s)) b)"
proof (cases b)
  case (Pair n s)
  with assms show ?thesis
    by (cases x) (simp add: BuildMazePart_def cb_indexed_push)
qed

lemma fold_invariant:
  assumes "\<And>x b. P b \<Longrightarrow> P (F x b)" and "P b"
  shows "P (fold F xs b)"
  using assms(2) by (induction xs arbitrary: b) (simp_all add: assms(1))

lemma fst_add [simp]: "fst (add_RenderItem layer item b) = fst b + 1"
  by (cases b) (simp add: add_RenderItem_def)

lemma fst_fold_step:
  assumes "\<And>x b. fst (F x b) = fst b + c"
  shows "fst (fold F xs b) = fst b + c * int (length xs)"
  by (induction xs arbitrary: b) (simp_all add: assms algebra_simps)

lemma length_maze_parts: "length maze_parts = 61"
  by (simp add: maze_parts_def)

lemma BuildRenderItems_body_indexed:
  assumes "mAllRitems s0 = []"
  shows "cb_indexed (BuildRenderItems_body flt DrawArgs s0)"
  unfolding BuildRenderItems_body_def Let_def
  apply (intro fold_invariant [where P = cb_indexed] cb_indexed_add cb_indexed_maze ObjCBIndex_wall_block ObjCBIndex_tower_block)
        apply assumption+
  apply (simp add: cb_indexed_def assms numeral_3_eq_3)
  done

lemma BuildRenderItems_body_count: "fst (BuildRenderItems_body flt DrawArgs s0) = 106"
  unfolding BuildRenderItems_body_def Let_def
  apply (subst fst_fold_step [where c = 1])
   apply (simp split: prod.splits)
  apply (simp add: length_maze_parts fst_fold_step [where c = 1] fst_fold_step [where c = 4])
  done


lemma BuildRenderItems_indexed:
  assumes "mAllRitems s0 = []"
  shows "map ObjCBIndex (mAllRitems (BuildRenderItems flt DrawArgs s0)) = map word_of_nat [0..<106]"
    and "length (mAllRitems (BuildRenderItems flt DrawArgs s0)) = 106"
proof -
  let ?b = "BuildRenderItems_body flt DrawArgs s0"
  have c: "cb_indexed ?b" using assms by (rule BuildRenderItems_body_indexed)
  have n: "fst ?b = 106" by (rule BuildRenderItems_body_count)
  from c n have l: "length (mAllRitems (snd ?b)) = 106" by (simp add: cb_indexed_def)
  then show "length (mAllRitems (BuildRenderItems flt DrawArgs s0)) = 106"
    by (simp add: BuildRenderItems_def)
  from c l show "map ObjCBIndex (mAllRitems (BuildRenderItems flt DrawArgs s0)) = map word_of_nat [0..<106]"
    by (simp add: cb_indexed_def BuildRenderItems_def)
qed

lemma unat_small_index: "i < 106 \<Longrightarrow> unat (word_of_nat i :: 32 word) = i"
  by (simp add: unat_of_nat)

lemma distinct_small_indices: "distinct (map (word_of_nat :: nat \<Rightarrow> 32 word) [0..<106])"
proof -
  have "inj_on (word_of_nat :: nat \<Rightarrow> 32 word) (set [0..<106])"
  proof (rule inj_onI)
    fix x y :: nat
    assume a: "x \<in> set [0..<106]" "y \<in> set [0..<106]"
      and e: "(word_of_nat x :: 32 word) = word_of_nat y"
    from a have "unat (word_of_nat x :: 32 word) = x" "unat (word_of_nat y :: 32 word) = y"
      by (simp_all add: unat_small_index)
    with e show "x = y" by metis
  qed
  then show ?thesis by (simp add: distinct_map)
qed

lemma length_BuildFrameResources:
  "length (BuildFrameResources s w frs) = length frs + 3"
  by (simp add: BuildFrameResources_def gNumFrameResources_def numeral_3_eq_3)

lemma set_BuildFrameResources:
  "set (BuildFrameResources s w []) = {new_FrameResource 1
              (unat (word_of_nat (length (mAllRitems s)) :: 32 word))
              (unat (word_of_nat (length (mMaterials s)) :: 32 word)) w}"
  by (simp add: BuildFrameResources_def gNumFrameResources_def numeral_3_eq_3)

text \<open>
  Claim C7. After BuildRenderItems (with all its BuildMazePart calls) on an application
  that holds no render items yet, and BuildFrameResources, the 106 items stored in
  \<open>mAllRitems\<close> have pairwise distinct indices \<open>ObjCBIndex\<close>, three frame resources
  exist, the object-constant buffer of each has the number of stored items as its
  capacity, and every stored item's index is strictly below that capacity.
\<close>

theorem ObjCBIndex_unique_and_in_capacity:
  fixes flt :: "rat \<Rightarrow> 'f::{plus,minus,times}"
  assumes "mAllRitems s0 = []"
  shows "let s = BuildRenderItems flt DrawArgs s0;
             frs = BuildFrameResources s waveVertCount [] in
         distinct (map ObjCBIndex (mAllRitems s))
       \<and> length (mAllRitems s) = 106
       \<and> length frs = 3
       \<and> (\<forall>fr \<in> set frs. length (ObjectCB fr) = length (mAllRitems s)
             \<and> (\<forall>ri \<in> set (mAllRitems s). unat (ObjCBIndex ri) < length (ObjectCB fr)))"
proof -
  let ?s = "BuildRenderItems flt DrawArgs s0"
  note ix = BuildRenderItems_indexed [OF assms, of flt DrawArgs]
  have d: "distinct (map ObjCBIndex (mAllRitems ?s))"
    unfolding ix(1) by (rule distinct_small_indices)
  have cap: "length (ObjectCB fr) = 106" if "fr \<in> set (BuildFrameResources ?s waveVertCount [])" for fr
    using that by (simp add: set_BuildFrameResources ix(2) new_FrameResource_def)
  have lt: "unat (ObjCBIndex ri) < 106" if "ri \<in> set (mAllRitems ?s)" for ri
  proof -
    from that have "ObjCBIndex ri \<in> set (map ObjCBIndex (mAllRitems ?s))" by simp
    then obtain i where "i < 106" "ObjCBIndex ri = word_of_nat i"
      unfolding ix(1) by auto
    then show ?thesis by (simp add: unat_small_index)
  qed
  show ?thesis
    using d ix(2) cap lt by (simp add: Let_def length_BuildFrameResources)
qed


theorem ObjCBIndex_unique_and_in_capacity_witness:
  "mAllRitems (BuildMaterials (\<lambda>q. q) empty_Scene :: rat Scene) = []
   \<and> distinct (map ObjCBIndex (mAllRitems demo_Scene))
   \<and> length (mAllRitems demo_Scene) = 106
   \<and> length (BuildFrameResources demo_Scene 16384 []) = 3
   \<and> unat (ObjCBIndex (last (mAllRitems demo_Scene)))
       < length (ObjectCB (hd (BuildFrameResources demo_Scene 16384 [])))"
proof -
  have h: "mAllRitems (BuildMaterials (\<lambda>q. q) empty_Scene :: rat Scene) = []"
    by (simp add: BuildMaterials_def empty_Scene_def Let_def)
  note t = ObjCBIndex_unique_and_in_capacity [OF h, of "\<lambda>q. q" demo_DrawArgs 16384,
      unfolded Let_def, folded demo_Scene_def]
  from t have l: "length (mAllRitems demo_Scene) = 106"
    and f: "length (BuildFrameResources demo_Scene 16384 []) = 3" by blast+
  from l have "mAllRitems demo_Scene \<noteq> []" by auto
  then have a: "last (mAllRitems demo_Scene) \<in> set (mAllRitems demo_Scene)" by (rule last_in_set)
  from f have "BuildFrameResources demo_Scene 16384 [] \<noteq> []" by auto
  then have b: "hd (BuildFrameResources demo_Scene 16384 []) \<in> set (BuildFrameResources demo_Scene 16384 [])"
    by (rule hd_in_set)
  from t a b h show ?thesis by blast
qed


section \<open>Verification: dirty counters\<close>

lemma UpdateObjectCBs_loop_returns:
  "list_all (\<lambda>e. unat (ObjCBIndex e) < length cb) es \<Longrightarrow>
   \<exists>es' cb'. UpdateObjectCBs_loop es cb = Some (es', cb')
     \<and> map NumFramesDirty es' = map (\<lambda>e. flush (NumFramesDirty e)) es
     \<and> map ObjCBIndex es' = map ObjCBIndex es
     \<and> length cb' = length cb"
proof (induction es arbitrary: cb)
  case Nil
  then show ?case by simp
next
  case (Cons e es)
  show ?case
  proof (cases "NumFramesDirty e > 0")
    case True
    let ?cb = "cb[unat (ObjCBIndex e) := Some \<lparr>oc_World = XMMatrixTranspose (World e),
                 oc_TexTransform = XMMatrixTranspose (TexTransform e)\<rparr>]"
    from Cons.prems have "list_all (\<lambda>e. unat (ObjCBIndex e) < length ?cb) es" by simp
    from Cons.IH [OF this] obtain es' cb' where
      "UpdateObjectCBs_loop es ?cb = Some (es', cb')"
      "map NumFramesDirty es' = map (\<lambda>e. flush (NumFramesDirty e)) es"
      "map ObjCBIndex es' = map ObjCBIndex es" "length cb' = length ?cb"
      by blast
    with True Cons.prems show ?thesis by (simp add: CopyData_def flush_def)
  next
    case False
    from Cons.prems have "list_all (\<lambda>e. unat (ObjCBIndex e) < length cb) es" by simp
    from Cons.IH [OF this] obtain es' cb' where
      "UpdateObjectCBs_loop es cb = Some (es', cb')"
      "map NumFramesDirty es' = map (\<lambda>e. flush (NumFramesDirty e)) es"
      "map ObjCBIndex es' = map ObjCBIndex es" "length cb' = length cb"
      by blast
    with False show ?thesis by (simp add: flush_def)
  qed
qed

lemma UpdateMaterialCBs_loop_returns:
  "list_all (\<lambda>e. 0 \<le> MatCBIndex (snd e) \<and> nat (MatCBIndex (snd e)) < length cb) es \<Longrightarrow>
   \<exists>es' cb'. UpdateMaterialCBs_loop es cb = Some (es', cb')
     \<and> map (\<lambda>e. MatNumFramesDirty (snd e)) es' = map (\<lambda>e. flush (MatNumFramesDirty (snd e))) es
     \<and> map (\<lambda>e. MatCBIndex (snd e)) es' = map (\<lambda>e. MatCBIndex (snd e)) es
     \<and> length cb' = length cb"
proof (induction es arbitrary: cb)
  case Nil
  then show ?case by simp
next
  case (Cons x es)
  obtain name mat where x: "x = (name, mat)" by (cases x)
  show ?case
  proof (cases "MatNumFramesDirty mat > 0")
    case True
    let ?cb = "cb[nat (MatCBIndex mat) := Some \<lparr>mc_DiffuseAlbedo = DiffuseAlbedo mat,
                    mc_FresnelR0 = FresnelR0 mat,
                    mc_Roughness = Roughness mat,
                    mc_MatTransform = XMMatrixTranspose (MatTransform mat)\<rparr>]"
    from Cons.prems have
      "list_all (\<lambda>e. 0 \<le> MatCBIndex (snd e) \<and> nat (MatCBIndex (snd e)) < length ?cb) es" by simp
    from Cons.IH [OF this] obtain es' cb' where
      "UpdateMaterialCBs_loop es ?cb = Some (es', cb')"
      "map (\<lambda>e. MatNumFramesDirty (snd e)) es' = map (\<lambda>e. flush (MatNumFramesDirty (snd e))) es"
      "map (\<lambda>e. MatCBIndex (snd e)) es' = map (\<lambda>e. MatCBIndex (snd e)) es"
      "length cb' = length ?cb"
      by blast
    with True Cons.prems x show ?thesis by (simp add: CopyData_def flush_def)
  next
    case False
    from Cons.prems have
      "list_all (\<lambda>e. 0 \<le> MatCBIndex (snd e) \<and> nat (MatCBIndex (snd e)) < length cb) es" by simp
    from Cons.IH [OF this] obtain es' cb' where
      "UpdateMaterialCBs_loop es cb = Some (es', cb')"
      "map (\<lambda>e. MatNumFramesDirty (snd e)) es' = map (\<lambda>e. flush (MatNumFramesDirty (snd e))) es"
      "map (\<lambda>e. MatCBIndex (snd e)) es' = map (\<lambda>e. MatCBIndex (snd e)) es"
      "length cb' = length cb"
      by blast
    with False x show ?thesis by (simp add: flush_def)
  qed
qed

lemma list_all_map_eq:
  assumes "map f xs = map f ys" and "list_all (\<lambda>x. P (f x)) ys"
  shows "list_all (\<lambda>x. P (f x)) xs"
proof -
  have "list_all P (map f ys)" using assms(2) by (simp add: list_all_iff)
  then have "list_all P (map f xs)" using assms(1) by simp
  then show ?thesis by (simp add: list_all_iff)
qed

lemma one_cycle:
  assumes "fits s fr"
  shows "\<exists>s1 fr1 s2 fr2. UpdateObjectCBs s fr = Some (s1, fr1) \<and> UpdateMaterialCBs s1 fr1 = Some (s2, fr2)
     \<and> item_counters s2 = map flush (item_counters s)
     \<and> material_counters s2 = map flush (material_counters s)
     \<and> (\<forall>fr'. fits s fr' \<longrightarrow> fits s2 fr')"
proof -
  from assms have a: "list_all (\<lambda>e. unat (ObjCBIndex e) < length (ObjectCB fr)) (mAllRitems s)"
    and b: "list_all (\<lambda>e. 0 \<le> MatCBIndex (snd e) \<and> nat (MatCBIndex (snd e)) < length (MaterialCB fr))
           (mMaterials s)"
    by (simp_all add: fits_def)
  from UpdateObjectCBs_loop_returns [OF a] obtain es cb where
    o: "UpdateObjectCBs_loop (mAllRitems s) (ObjectCB fr) = Some (es, cb)"
       "map NumFramesDirty es = map (\<lambda>e. flush (NumFramesDirty e)) (mAllRitems s)"
       "map ObjCBIndex es = map ObjCBIndex (mAllRitems s)"
    by blast
  let ?s1 = "s\<lparr>mAllRitems := es\<rparr>" and ?fr1 = "fr\<lparr>ObjectCB := cb\<rparr>"
  have u1: "UpdateObjectCBs s fr = Some (?s1, ?fr1)" using o(1) by (simp add: UpdateObjectCBs_def)
  from UpdateMaterialCBs_loop_returns [OF b] obtain ms mcb where
    m: "UpdateMaterialCBs_loop (mMaterials s) (MaterialCB fr) = Some (ms, mcb)"
       "map (\<lambda>e. MatNumFramesDirty (snd e)) ms = map (\<lambda>e. flush (MatNumFramesDirty (snd e))) (mMaterials s)"
       "map (\<lambda>e. MatCBIndex (snd e)) ms = map (\<lambda>e. MatCBIndex (snd e)) (mMaterials s)"
    by blast
  let ?s2 = "?s1\<lparr>mMaterials := ms\<rparr>" and ?fr2 = "?fr1\<lparr>MaterialCB := mcb\<rparr>"
  have u2: "UpdateMaterialCBs ?s1 ?fr1 = Some (?s2, ?fr2)" using m(1) by (simp add: UpdateMaterialCBs_def)
  have c1: "item_counters ?s2 = map flush (item_counters s)"
    using o(2) by (simp add: item_counters_def)
  have c2: "material_counters ?s2 = map flush (material_counters s)"
    using m(2) by (simp add: material_counters_def)
  have f: "fits ?s2 fr'" if "fits s fr'" for fr'
  proof -
    from that have
      "list_all (\<lambda>e. unat (ObjCBIndex e) < length (ObjectCB fr')) (mAllRitems s)"
      "list_all (\<lambda>e. (\<lambda>i. 0 \<le> i \<and> nat i < length (MaterialCB fr')) (MatCBIndex (snd e))) (mMaterials s)"
      by (simp_all add: fits_def)
    then have "list_all (\<lambda>e. unat (ObjCBIndex e) < length (ObjectCB fr')) es"
      "list_all (\<lambda>e. (\<lambda>i. 0 \<le> i \<and> nat i < length (MaterialCB fr')) (MatCBIndex (snd e))) ms"
      using list_all_map_eq [OF o(3), of "\<lambda>i. unat i < length (ObjectCB fr')"]
        list_all_map_eq [OF m(3), of "\<lambda>i. 0 \<le> i \<and> nat i < length (MaterialCB fr')"]
      by simp_all
    then show ?thesis by (simp add: fits_def)
  qed
  from u1 u2 c1 c2 f show ?thesis by blast
qed

lemma Update_cycles_returns:
  "list_all (fits s) frs \<Longrightarrow>
   \<exists>s'. Update_cycles frs s = Some s'
     \<and> item_counters s' = map (flush ^^ length frs) (item_counters s)
     \<and> material_counters s' = map (flush ^^ length frs) (material_counters s)"
proof (induction frs arbitrary: s)
  case Nil
  then show ?case by simp
next
  case (Cons fr frs)
  from Cons.prems have "fits s fr" by simp
  from one_cycle [OF this] obtain s1 fr1 s2 fr2 where
    c: "UpdateObjectCBs s fr = Some (s1, fr1)" "UpdateMaterialCBs s1 fr1 = Some (s2, fr2)"
       "item_counters s2 = map flush (item_counters s)"
       "material_counters s2 = map flush (material_counters s)"
       "\<forall>fr'. fits s fr' \<longrightarrow> fits s2 fr'"
    by blast
  from Cons.prems c(5) have "list_all (fits s2) frs" by (simp add: list_all_iff)
  from Cons.IH [OF this] obtain s' where
    s': "Update_cycles frs s2 = Some s'"
        "item_counters s' = map (flush ^^ length frs) (item_counters s2)"
        "material_counters s' = map (flush ^^ length frs) (material_counters s2)"
    by blast
  have "Update_cycles (fr # frs) s = Some s'" using c(1,2) s'(1) by simp
  moreover have "item_counters s' = map (flush ^^ length (fr # frs)) (item_counters s)"
    using s'(2) c(3) by (simp add: funpow_swap1 comp_def)
  moreover have "material_counters s' = map (flush ^^ length (fr # frs)) (material_counters s)"
    using s'(3) c(4) by (simp add: funpow_swap1 comp_def)
  ultimately show ?case by blast
qed

lemma flush_pow: "0 \<le> d \<Longrightarrow> (flush ^^ k) d = max 0 (d - int k)"
  by (induction k) (auto simp: flush_def)

lemma flush_pow_nonpos: "d \<le> 0 \<Longrightarrow> (flush ^^ k) d = d"
  by (induction k) (auto simp: flush_def)

text \<open>
  Claim C3. When every constant-buffer index lies within the buffers of the frame
  resources used, any number of Update cycles (UpdateObjectCBs for the items,
  UpdateMaterialCBs for the materials) returns, and turns every dirty counter \<open>d\<close> of
  an item or of a material into \<open>flush\<close> applied once per cycle, where a cycle
  decrements the counter by 1 only when it is positive. So a counter that is not negative
  never becomes negative, and a counter reset to 3 that is not modified again is
  \<open>3 - k\<close> after \<open>k < 3\<close> cycles and exactly 0 after exactly 3 cycles.
\<close>

theorem dirty_counters:
  assumes "list_all (fits s) frs"
  shows "(\<exists>s'. Update_cycles frs s = Some s'
       \<and> item_counters s' = map (flush ^^ length frs) (item_counters s)
       \<and> material_counters s' = map (flush ^^ length frs) (material_counters s))
     \<and> (\<forall>d. flush d = (if d > 0 then d - 1 else d))
     \<and> (\<forall>d k. 0 \<le> d \<longrightarrow> 0 \<le> (flush ^^ k) d)
     \<and> (flush ^^ 3) (int gNumFrameResources) = 0
     \<and> (\<forall>k < 3. (flush ^^ k) (int gNumFrameResources) = 3 - int k)"
proof -
  have "\<forall>d k. 0 \<le> d \<longrightarrow> 0 \<le> (flush ^^ k) d" by (simp add: flush_pow)
  moreover have "(flush ^^ 3) (int gNumFrameResources) = 0"
    using flush_pow [of 3 3] by (simp add: gNumFrameResources_def)
  moreover have "\<forall>k < 3. (flush ^^ k) (int gNumFrameResources) = 3 - int k"
    by (simp add: flush_pow gNumFrameResources_def)
  ultimately show ?thesis
    using Update_cycles_returns [OF assms] by (simp add: flush_def)
qed

lemma small_Scene_fits: "fits small_Scene (new_FrameResource 1 2 7 0)"
proof -
  have a: "map (\<lambda>e. unat (ObjCBIndex e)) (mAllRitems small_Scene) = [0, 1]" by code_simp
  have b: "map (\<lambda>e. MatCBIndex (snd e)) (mMaterials small_Scene) = [0, 1, 2, 3, 4, 5, 6]"
    by code_simp
  have "list_all (\<lambda>i. i < 2) (map (\<lambda>e. unat (ObjCBIndex e)) (mAllRitems small_Scene))"
    unfolding a by simp
  moreover have "list_all (\<lambda>i. 0 \<le> i \<and> nat i < 7)
      (map (\<lambda>e. MatCBIndex (snd e)) (mMaterials small_Scene))"
    unfolding b by simp
  ultimately show ?thesis
    by (simp add: fits_def new_FrameResource_def list.pred_map comp_def)
qed

lemma small_Scene_counters: "item_counters small_Scene = [3, 3]"
  "material_counters small_Scene = [3, 3, 3, 3, 3, 3, 3]"
  by code_simp+

theorem dirty_counters_witness:
  "list_all (fits small_Scene) (replicate 3 (new_FrameResource 1 2 7 0))
   \<and> (\<exists>s'. Update_cycles (replicate 3 (new_FrameResource 1 2 7 0)) small_Scene = Some s'
       \<and> item_counters s' = [0, 0]
       \<and> material_counters s' = [0, 0, 0, 0, 0, 0, 0])"
proof -
  have f: "list_all (fits small_Scene) (replicate 3 (new_FrameResource 1 2 7 0))"
    using small_Scene_fits by (simp add: list_all_iff)
  have z: "(flush ^^ 3) 3 = 0" using flush_pow [of 3 3] by simp
  show ?thesis
    using dirty_counters [OF f] f by (simp add: small_Scene_counters z)
qed


section \<open>Verification: draw order\<close>

lemma fold_track_DrawRenderItems:
  "DrawRenderItems s ps = Some cs \<Longrightarrow>
   \<exists>a'. fold track cs (p, a, out) =
     (p, a', out @ map (\<lambda>i. (p, Some (ObjectCBAddress (ObjCBIndex (mAllRitems s ! i))))) ps)"
proof (induction ps arbitrary: cs a out)
  case Nil
  then show ?case by simp
next
  case (Cons i ps)
  let ?ri = "mAllRitems s ! i"
  let ?m = "the (map_of (mMaterials s) (the (Mat ?ri)))"
  from Cons.prems obtain cs' where
    cs': "DrawRenderItems s ps = Some cs'"
    and cs: "cs = [IASetVertexBuffers (the (Geo ?ri)), IASetIndexBuffer (the (Geo ?ri)),
        IASetPrimitiveTopology (PrimitiveType ?ri),
        SetGraphicsRootDescriptorTable 0 (DiffuseSrvHeapIndex ?m),
        SetGraphicsRootConstantBufferView 1 (ObjectCBAddress (ObjCBIndex ?ri)),
        SetGraphicsRootConstantBufferView 3 (MaterialCBAddress (MatCBIndex ?m)),
        DrawIndexedInstanced (IndexCount ?ri) 1 (StartIndexLocation ?ri) (BaseVertexLocation ?ri) 0]
        @ cs'"
    by (auto simp: Let_def split: if_splits option.splits)
  from cs obtain pre where pre: "cs = pre @ cs'"
    "fold track pre (p, a, out) = (p, Some (ObjectCBAddress (ObjCBIndex (mAllRitems s ! i))),
       out @ [(p, Some (ObjectCBAddress (ObjCBIndex (mAllRitems s ! i))))])"
    by auto
  from Cons.IH [OF cs'] obtain a' where
    "fold track cs' (p, Some (ObjectCBAddress (ObjCBIndex (mAllRitems s ! i))),
       out @ [(p, Some (ObjectCBAddress (ObjCBIndex (mAllRitems s ! i))))]) =
     (p, a', (out @ [(p, Some (ObjectCBAddress (ObjCBIndex (mAllRitems s ! i))))]) @
        map (\<lambda>i. (p, Some (ObjectCBAddress (ObjCBIndex (mAllRitems s ! i))))) ps)"
    by blast
  with pre show ?case by simp
qed

lemma issued_draws_DrawCommands:
  assumes "DrawCommands s = Some cs"
  shows "issued_draws cs =
      layer_draws s ''opaque'' Opaque @ layer_draws s ''alphaTested'' AlphaTested
      @ layer_draws s ''treeSprites'' AlphaTestedTreeSprites
      @ layer_draws s ''transparent'' Transparent"
proof -
  from assms obtain c1 c2 c3 c4 where
    d: "DrawRenderItems s (mRitemLayer s Opaque) = Some c1"
       "DrawRenderItems s (mRitemLayer s AlphaTested) = Some c2"
       "DrawRenderItems s (mRitemLayer s AlphaTestedTreeSprites) = Some c3"
       "DrawRenderItems s (mRitemLayer s Transparent) = Some c4"
    and cs: "cs = [Reset ''opaque'', RSSetViewports, RSSetScissorRects,
           ResourceBarrier PRESENT RENDER_TARGET, ClearRenderTargetView, ClearDepthStencilView,
           OMSetRenderTargets, SetDescriptorHeaps, SetGraphicsRootSignature,
           SetGraphicsRootConstantBufferView 2 PassCBAddress]
          @ c1 @ [SetPipelineState ''alphaTested''] @ c2
          @ [SetPipelineState ''treeSprites''] @ c3
          @ [SetPipelineState ''transparent''] @ c4
          @ [ResourceBarrier RENDER_TARGET PRESENT, Close]"
    by (auto simp: DrawCommands_def split: option.splits)
  let ?L1 = "layer_draws s ''opaque'' Opaque"
  let ?L2 = "layer_draws s ''alphaTested'' AlphaTested"
  let ?L3 = "layer_draws s ''treeSprites'' AlphaTestedTreeSprites"
  let ?L4 = "layer_draws s ''transparent'' Transparent"
  from fold_track_DrawRenderItems [OF d(1), of "''opaque''" None "[]"] obtain a1 where
    1: "fold track c1 (''opaque'', None, []) = (''opaque'', a1, ?L1)"
    by (auto simp: layer_draws_def)
  from fold_track_DrawRenderItems [OF d(2), of "''alphaTested''" a1 ?L1] obtain a2 where
    2: "fold track c2 (''alphaTested'', a1, ?L1) = (''alphaTested'', a2, ?L1 @ ?L2)"
    by (auto simp: layer_draws_def)
  from fold_track_DrawRenderItems [OF d(3), of "''treeSprites''" a2 "?L1 @ ?L2"] obtain a3 where
    3: "fold track c3 (''treeSprites'', a2, ?L1 @ ?L2) = (''treeSprites'', a3, ?L1 @ ?L2 @ ?L3)"
    by (auto simp: layer_draws_def)
  from fold_track_DrawRenderItems [OF d(4), of "''transparent''" a3 "?L1 @ ?L2 @ ?L3"] obtain a4 where
    4: "fold track c4 (''transparent'', a3, ?L1 @ ?L2 @ ?L3) = (''transparent'', a4, ?L1 @ ?L2 @ ?L3 @ ?L4)"
    by (auto simp: layer_draws_def)
  show ?thesis
    unfolding issued_draws_def cs by (simp add: 1 2 3 4)
qed


lemma layer_draws_pso: "x \<in> set (layer_draws s pso layer) \<Longrightarrow> fst x = pso"
  by (auto simp: layer_draws_def)

lemma transparent_last:
  assumes "tr = A @ T" and "\<forall>x \<in> set A. fst x \<noteq> t" and "\<forall>x \<in> set T. fst x = t"
    and "i < length tr" and "j < length tr" and "fst (tr ! i) = t" and "fst (tr ! j) \<noteq> t"
  shows "j < i"
proof -
  have i: "\<not> i < length A"
  proof
    assume "i < length A"
    then have "tr ! i \<in> set A" using assms(1) by (simp add: nth_append)
    with assms(2,6) show False by blast
  qed
  have j: "j < length A"
  proof (rule ccontr)
    assume n: "\<not> j < length A"
    with assms(1,5) have "tr ! j = T ! (j - length A)" "j - length A < length T"
      by (auto simp: nth_append)
    then have "tr ! j \<in> set T" by simp
    with assms(3,7) show False by blast
  qed
  from i j show ?thesis by simp
qed

text \<open>
  Claim C4. Whatever the layer lists hold and in whatever order the items were inserted,
  the draw calls of the command sequence recorded by Draw are those of the opaque layer
  under the opaque pipeline state, then those of the alpha-tested layer, then those of
  the alpha-tested tree-sprite layer, then those of the transparent layer, each layer in
  the order of its list; in particular every transparent draw is issued after every draw
  of the other three layers.
\<close>

theorem draw_layer_order:
  assumes "DrawCommands s = Some cs"
  shows "issued_draws cs =
      layer_draws s ''opaque'' Opaque @ layer_draws s ''alphaTested'' AlphaTested
      @ layer_draws s ''treeSprites'' AlphaTestedTreeSprites
      @ layer_draws s ''transparent'' Transparent
    \<and> (\<forall>i j. i < length (issued_draws cs) \<and> j < length (issued_draws cs)
          \<and> fst (issued_draws cs ! i) = ''transparent''
          \<and> fst (issued_draws cs ! j) \<noteq> ''transparent'' \<longrightarrow> j < i)"
proof -
  let ?A = "layer_draws s ''opaque'' Opaque @ layer_draws s ''alphaTested'' AlphaTested
      @ layer_draws s ''treeSprites'' AlphaTestedTreeSprites"
  let ?T = "layer_draws s ''transparent'' Transparent"
  have e: "issued_draws cs = ?A @ ?T"
    using issued_draws_DrawCommands [OF assms] by simp
  have a: "\<forall>x \<in> set ?A. fst x \<noteq> ''transparent''"
    by (auto dest: layer_draws_pso)
  have t: "\<forall>x \<in> set ?T. fst x = ''transparent''"
    by (auto dest: layer_draws_pso)
  have "j < i" if "i < length (issued_draws cs)" "j < length (issued_draws cs)"
      "fst (issued_draws cs ! i) = ''transparent''" "fst (issued_draws cs ! j) \<noteq> ''transparent''"
    for i j
    using transparent_last [OF e a t that] .
  with e show ?thesis by auto
qed

lemma DrawRenderItems_returns:
  assumes "list_all (\<lambda>p. p < length (mAllRitems s)
      \<and> Geo (mAllRitems s ! p) \<noteq> None
      \<and> (\<exists>n. Mat (mAllRitems s ! p) = Some n \<and> map_of (mMaterials s) n \<noteq> None)) ps"
  shows "\<exists>cs. DrawRenderItems s ps = Some cs"
  using assms by (induction ps) (auto simp: Let_def)

theorem draw_layer_order_witness:
  "\<exists>cs. DrawCommands small_Scene = Some cs
    \<and> issued_draws cs = [(''opaque'', Some (ObjectCBAddress 1)), (''transparent'', Some (ObjectCBAddress 0))]"
proof -
  have "DrawCommands small_Scene \<noteq> None" by code_simp
  then obtain cs where cs: "DrawCommands small_Scene = Some cs" by blast
  have l: "layer_draws small_Scene ''opaque'' Opaque = [(''opaque'', Some (ObjectCBAddress 1))]"
    "layer_draws small_Scene ''alphaTested'' AlphaTested = []"
    "layer_draws small_Scene ''treeSprites'' AlphaTestedTreeSprites = []"
    "layer_draws small_Scene ''transparent'' Transparent = [(''transparent'', Some (ObjectCBAddress 0))]"
    by (simp_all add: layer_draws_def small_Scene_def make_RenderItem_def)
  from draw_layer_order [OF cs] cs l show ?thesis by simp
qed


section \<open>Verification: frame of AnimateMaterials\<close>

text \<open>
  Claim C9. An execution of AnimateMaterials that returns leaves every render item, the
  layer lists and the keys of the material store as they were, leaves every material
  other than the one named water as it was, and changes in the water material only the
  entries (3,0) and (3,1) of \<open>MatTransform\<close> and the counter \<open>NumFramesDirty\<close>,
  which it sets to the number of frame resources.
\<close>

theorem AnimateMaterials_frame:
  assumes "AnimateMaterials flt dt s = Some s'"
  shows "mAllRitems s' = mAllRitems s \<and> mRitemLayer s' = mRitemLayer s \<and> mWavesRitem s' = mWavesRitem s
     \<and> map fst (mMaterials s') = map fst (mMaterials s)
     \<and> (\<forall>name. name \<noteq> ''water'' \<longrightarrow> map_of (mMaterials s') name = map_of (mMaterials s) name)
     \<and> (\<exists>w w'. map_of (mMaterials s) ''water'' = Some w \<and> map_of (mMaterials s') ''water'' = Some w'
          \<and> w'\<lparr>MatTransform := MatTransform w, MatNumFramesDirty := MatNumFramesDirty w\<rparr> = w
          \<and> MatNumFramesDirty w' = int gNumFrameResources
          \<and> (\<forall>r c. \<not> (r = 3 \<and> (c = 0 \<or> c = 1)) \<longrightarrow> MatTransform w' r c = MatTransform w r c))"
proof -
  from assms obtain w where w: "map_of (mMaterials s) ''water'' = Some w"
    by (auto simp: AnimateMaterials_def split: option.splits)
  then have k: "''water'' \<in> fst ` set (mMaterials s)" using map_of_SomeD [of "mMaterials s" "''water''" w] by force
  from assms w obtain w' where
    s': "s' = s\<lparr>mMaterials := AList.update ''water'' w' (mMaterials s)\<rparr>"
    and w': "\<exists>tu tv. w' = w\<lparr>MatTransform := (MatTransform w)(3 := (MatTransform w 3)(0 := tu, 1 := tv)),
                          MatNumFramesDirty := int gNumFrameResources\<rparr>"
    by (auto simp: AnimateMaterials_def Let_def)
  have m: "map_of (mMaterials s') = (map_of (mMaterials s))(''water'' \<mapsto> w')"
    using s' by (simp add: update_conv')
  have keys: "map fst (mMaterials s') = map fst (mMaterials s)"
    using s' k by (simp add: update_keys)
  from w' have f: "w'\<lparr>MatTransform := MatTransform w, MatNumFramesDirty := MatNumFramesDirty w\<rparr> = w"
    "MatNumFramesDirty w' = int gNumFrameResources"
    "\<forall>r c. \<not> (r = 3 \<and> (c = 0 \<or> c = 1)) \<longrightarrow> MatTransform w' r c = MatTransform w r c"
    by auto
  show ?thesis using s' m keys w f by auto
qed


theorem AnimateMaterials_frame_witness:
  "\<exists>s'. AnimateMaterials (\<lambda>q. q) (1 / 60) small_Scene = Some s'
     \<and> mAllRitems s' = mAllRitems small_Scene
     \<and> map fst (mMaterials s') = map fst (mMaterials small_Scene)
     \<and> map_of (mMaterials s') ''grass'' = map_of (mMaterials small_Scene) ''grass''"
proof -
  have "AnimateMaterials (\<lambda>q. q) (1 / 60) small_Scene \<noteq> None" by code_simp
  then obtain s' where s': "AnimateMaterials (\<lambda>q. q) (1 / 60) small_Scene = Some s'" by blast
  from AnimateMaterials_frame [OF s'] s' show ?thesis by simp
qed

section \<open>Verification: mouse input\<close>

text \<open>
  Claim C8, as amended. On a mouse move with the left button held, the camera is pitched
  by \<open>dy\<close>, the radians of 0.25 times the vertical pixel delta, whatever the resulting
  angle (nothing is clamped), exactly when \<open>bNoClip\<close> is set; when it is not set the
  pitch is left alone. The rotation about the y axis by \<open>dx\<close> is applied in both
  cases, the last mouse position becomes the event's and \<open>bNoClip\<close> is not changed.
\<close>

theorem OnMouseMove_pitch:
  fixes flt :: "rat \<Rightarrow> 'f::times"
  assumes "and btnState MK_LBUTTON \<noteq> 0"
  shows "(let dx = XMConvertToRadians (flt 0.25 * flt (of_int (x - fst (mLastMousePos s))));
              dy = XMConvertToRadians (flt 0.25 * flt (of_int (y - snd (mLastMousePos s))));
              s' = OnMouseMove flt XMConvertToRadians Pitch RotateY btnState x y s
          in mCamera s' = (if bNoClip s then RotateY dx (Pitch dy (mCamera s)) else RotateY dx (mCamera s))
           \<and> mLastMousePos s' = (x, y)
           \<and> bNoClip s' = bNoClip s)"
  using assms by (simp add: OnMouseMove_def Let_def)

theorem OnMouseMove_pitch_witness:
  "and (1 :: 64 word) MK_LBUTTON \<noteq> 0
   \<and> mCamera (OnMouseMove (\<lambda>q. q) demo_Radians demo_Pitch demo_RotateY 1 8 40
        (demo_Input\<lparr>bNoClip := True\<rparr>))
      = demo_RotateY (demo_Radians 2) (demo_Pitch (demo_Radians 10) (0, 0))"
proof -
  have h: "and (1 :: 64 word) MK_LBUTTON \<noteq> 0" by (simp add: MK_LBUTTON_def)
  show ?thesis
    using OnMouseMove_pitch [OF h, where flt = "\<lambda>q. q" and XMConvertToRadians = demo_Radians
        and x = 8 and y = 40 and s = "demo_Input\<lparr>bNoClip := True\<rparr>"
        and Pitch = demo_Pitch and RotateY = demo_RotateY] h
    by (simp add: Let_def demo_Input_def)
qed

text \<open>
  The claim as stated fails: with \<open>bNoClip\<close> off, the left button held and a vertical
  delta of 40 pixels, the camera is not pitched.
\<close>

theorem pitch_unconditional_counterexample:
  "\<not> (\<forall>s x y. mCamera (OnMouseMove (\<lambda>q. q) demo_Radians demo_Pitch demo_RotateY MK_LBUTTON x y s)
        = demo_RotateY (demo_Radians (0.25 * of_int (x - fst (mLastMousePos s))))
           (demo_Pitch (demo_Radians (0.25 * of_int (y - snd (mLastMousePos s)))) (mCamera s)))"
proof
  assume a: "\<forall>s x y. mCamera (OnMouseMove (\<lambda>q. q) demo_Radians demo_Pitch demo_RotateY MK_LBUTTON x y s)
        = demo_RotateY (demo_Radians (0.25 * of_int (x - fst (mLastMousePos s))))
           (demo_Pitch (demo_Radians (0.25 * of_int (y - snd (mLastMousePos s)))) (mCamera s))"
  have "mCamera (OnMouseMove (\<lambda>q. q) demo_Radians demo_Pitch demo_RotateY MK_LBUTTON 0 40 demo_Input)
      = (0, 0)"
    by (simp add: OnMouseMove_def Let_def demo_Input_def MK_LBUTTON_def demo_RotateY_def demo_Radians_def)
  moreover have "demo_RotateY (demo_Radians (0.25 * of_int (0 - fst (mLastMousePos demo_Input))))
           (demo_Pitch (demo_Radians (0.25 * of_int (40 - snd (mLastMousePos demo_Input)))) (mCamera demo_Input))
      \<noteq> (0, 0)"
    by (simp add: demo_Input_def demo_RotateY_def demo_Pitch_def demo_Radians_def)
  ultimately show False using a by metis
qed


section \<open>Verification: wave disturbances\<close>

lemma Rand_range: "a \<le> b \<Longrightarrow> a \<le> Rand a b r \<and> Rand a b r \<le> b"
proof -
  assume "a \<le> b"
  then have p: "0 < b - a + 1" by simp
  have "0 \<le> int r mod (b - a + 1)" using p by simp
  moreover have "int r mod (b - a + 1) < b - a + 1" using p by (rule pos_mod_bound)
  ultimately show ?thesis by (simp add: Rand_def)
qed

text \<open>
  Claim C6, as amended. A call of UpdateWaves generates a disturbance exactly when the
  total time minus \<open>t_base\<close> is at least 0.25, and then advances \<open>t_base\<close> by 0.25:
  \<open>t_base\<close> is a fixed schedule, not the time of the previous disturbance. A call
  generates at most one disturbance, before the simulation step. On a grid of at least 9
  rows and 9 columns (the application's has 128 of each) the cell of the disturbance
  satisfies 4 \<le> row \<le> rowCount - 5 and 4 \<le> col \<le> colCount - 5.
\<close>

theorem UpdateWaves_disturbance:
  fixes flt :: "rat \<Rightarrow> 'f::{plus,minus,ord}"
  assumes "9 \<le> rowCount" and "9 \<le> colCount"
  shows "(let s' = UpdateWaves flt rowCount colCount totalTime dt (ri, rj, magnitude) s;
              i = Rand 4 (rowCount - 5) ri;
              j = Rand 4 (colCount - 5) rj
          in (if flt 0.25 \<le> totalTime - t_base s
              then calls s' = calls s @ [Disturb i j magnitude, WavesUpdate dt]
                 \<and> t_base s' = t_base s + flt 0.25
              else calls s' = calls s @ [WavesUpdate dt] \<and> t_base s' = t_base s)
           \<and> 4 \<le> i \<and> i \<le> rowCount - 5 \<and> 4 \<le> j \<and> j \<le> colCount - 5)"
proof -
  from assms have "4 \<le> rowCount - 5" "4 \<le> colCount - 5" by simp_all
  then show ?thesis
    using Rand_range [of 4 "rowCount - 5" ri] Rand_range [of 4 "colCount - 5" rj]
    by (simp add: UpdateWaves_def fires_def Let_def)
qed

theorem UpdateWaves_disturbance_witness:
  "(9 :: int) \<le> 128
   \<and> calls (UpdateWaves (\<lambda>q. q) 128 128 1 (1 / 60) (1000, 77, 3 / 10) \<lparr>t_base = 0 :: rat, calls = []\<rparr>)
       = [Disturb 44 81 (3 / 10), WavesUpdate (1 / 60)]
   \<and> t_base (UpdateWaves (\<lambda>q. q) 128 128 1 (1 / 60) (1000, 77, 3 / 10) \<lparr>t_base = 0 :: rat, calls = []\<rparr>)
       = 1 / 4"
proof -
  have h: "(9 :: int) \<le> 128" by simp
  have r: "Rand 4 123 1000 = 44" "Rand 4 123 77 = 81" by (simp_all add: Rand_def)
  show ?thesis
    using UpdateWaves_disturbance [OF h h, where flt = "\<lambda>q. q" and totalTime = 1
        and s = "\<lparr>t_base = 0 :: rat, calls = []\<rparr>" and dt = "1 / 60"
        and ri = 1000 and rj = 77 and magnitude = "3 / 10"]
    by (simp add: Let_def r)
qed

text \<open>
  The claim as stated fails: with frames 3/32 apart, disturbances are generated in the
  frames at total time 9/32, 18/32 and 24/32, the last two only 6/32 apart.
\<close>

theorem disturbance_spacing_counterexample:
  "\<not> spaced (\<lambda>q. q)
      (fired_at (\<lambda>q. q) 128 128
         [(3 / 32, 3 / 32, (1000, 77, 3 / 10)), (6 / 32, 3 / 32, (1000, 77, 3 / 10)),
          (9 / 32, 3 / 32, (1000, 77, 3 / 10)), (12 / 32, 3 / 32, (1000, 77, 3 / 10)),
          (15 / 32, 3 / 32, (1000, 77, 3 / 10)), (18 / 32, 3 / 32, (1000, 77, 3 / 10)),
          (21 / 32, 3 / 32, (1000, 77, 3 / 10)), (24 / 32, 3 / 32, (1000, 77, 3 / 10))]
         \<lparr>t_base = 0 :: rat, calls = []\<rparr>)"
proof -
  have "fired_at (\<lambda>q. q) 128 128
         [(3 / 32, 3 / 32, (1000, 77, 3 / 10)), (6 / 32, 3 / 32, (1000, 77, 3 / 10)),
          (9 / 32, 3 / 32, (1000, 77, 3 / 10)), (12 / 32, 3 / 32, (1000, 77, 3 / 10)),
          (15 / 32, 3 / 32, (1000, 77, 3 / 10)), (18 / 32, 3 / 32, (1000, 77, 3 / 10)),
          (21 / 32, 3 / 32, (1000, 77, 3 / 10)), (24 / 32, 3 / 32, (1000, 77, 3 / 10))]
         \<lparr>t_base = 0 :: rat, calls = []\<rparr> = [9 / 32, 18 / 32, 24 / 32]"
    by code_simp
  then show ?thesis by simp
qed

section \<open>Verification: the index loop of the wave geometry\<close>

declare row_loop.simps [simp del] grid_loop.simps [simp del]

lemma int32_ok: "- 2147483648 \<le> x \<Longrightarrow> x \<le> 2147483647 \<Longrightarrow> int32 x = Inr x"
  by (simp add: int32_def)

lemma store_written:
  assumes "written L V (nat k) b" and "0 \<le> k" and "k < int L" and "0 \<le> v" and "v < V"
  shows "\<exists>b'. store k v b = Inr b' \<and> written L V (nat (k + 1)) b'"
proof -
  from assms(1) have len: "length (fst b) = L" and pos: "map fst (snd b) = [0..<nat k]"
    and old: "list_all (\<lambda>w. 0 \<le> snd w \<and> snd w < V \<and> fst b ! fst w = word_of_int (snd w)) (snd b)"
    by (simp_all add: written_def)
  from assms(2,3) have kL: "nat k < L" by simp
  from assms(2) have k1: "nat (k + 1) = Suc (nat k)" by simp
  let ?b = "((fst b)[nat k := word_of_int v], snd b @ [(nat k, v)])"
  have s: "store k v b = Inr ?b" using len kL assms(2) by (simp add: store_def)
  have lt: "fst w < nat k" if "w \<in> set (snd b)" for w
  proof -
    from that have "fst w \<in> set (map fst (snd b))" by simp
    then show ?thesis unfolding pos by simp
  qed
  have same: "fst ?b ! fst w = fst b ! fst w" if "w \<in> set (snd b)" for w
    using lt [OF that] by simp
  have "list_all (\<lambda>w. 0 \<le> snd w \<and> snd w < V \<and> fst ?b ! fst w = word_of_int (snd w)) (snd b)"
    unfolding list_all_iff
  proof
    fix w assume w: "w \<in> set (snd b)"
    with old have "0 \<le> snd w \<and> snd w < V \<and> fst b ! fst w = word_of_int (snd w)"
      by (simp add: list_all_iff)
    with same [OF w] show "0 \<le> snd w \<and> snd w < V \<and> fst ?b ! fst w = word_of_int (snd w)"
      by simp
  qed
  moreover have "fst ?b ! nat k = word_of_int v" using len kL by simp
  ultimately have "written L V (Suc (nat k)) ?b"
    using len pos kL assms(4,5) by (simp add: written_def)
  with s show ?thesis unfolding k1 by blast
qed

lemma assign_written:
  assumes "written L V (nat k) b" and "0 \<le> k" and "k < int L" and "0 \<le> v" and "v < V"
    and "pos = Inr k" and "val = Inr v"
  shows "\<exists>b'. assign pos val b = Inr b' \<and> written L V (nat (k + 1)) b'"
  using store_written [OF assms(1-5)] assms(6,7) by (simp add: assign_def and_then_def)

lemma store_quad_written:
  assumes w: "written L V (nat k) b" and k: "0 \<le> k" "k + 6 \<le> int L" "int L \<le> 2147483647"
    and nn: "0 \<le> i" "0 \<le> j" "1 \<le> n" and v: "(i + 1) * n + j + 1 < V" "V \<le> 2147483647"
  shows "\<exists>b'. store_quad n i j k b = Inr b' \<and> written L V (nat (k + 6)) b'"
proof -
  have in0: "0 \<le> i * n" using nn by simp
  have i1n: "i + 1 \<le> (i + 1) * n" using nn by (simp add: mult_le_cancel_left1)
  have le: "(i + 1) * n = i * n + n" by (simp add: algebra_simps)
  have I: "int32 (i + 1) = Inr (i + 1)" "int32 (i * n) = Inr (i * n)"
    "int32 (i * n + j) = Inr (i * n + j)" "int32 (i * n + j + 1) = Inr (i * n + j + 1)"
    "int32 ((i + 1) * n) = Inr ((i + 1) * n)" "int32 ((i + 1) * n + j) = Inr ((i + 1) * n + j)"
    "int32 ((i + 1) * n + j + 1) = Inr ((i + 1) * n + j + 1)"
    using in0 nn v i1n unfolding le by (intro int32_ok; linarith)+
  have i1: "add32 i 1 = Inr (i + 1)" by (simp add: add32_def I)
  have a: "row_col (Inr i) n j = Inr (i * n + j)"
    by (simp add: row_col_def and_then_def mul32_def add32_def I)
  have b: "plus_one (row_col (Inr i) n j) = Inr (i * n + j + 1)"
    unfolding a by (simp add: plus_one_def and_then_def add32_def I)
  have c: "row_col (add32 i 1) n j = Inr ((i + 1) * n + j)"
    unfolding i1 by (simp add: row_col_def and_then_def mul32_def add32_def I)
  have d: "plus_one (row_col (add32 i 1) n j) = Inr ((i + 1) * n + j + 1)"
    unfolding c by (simp add: plus_one_def and_then_def add32_def I)
  have p: "add32 k 1 = Inr (k + 1)" "add32 k 2 = Inr (k + 1 + 1)" "add32 k 3 = Inr (k + 1 + 1 + 1)"
    "add32 k 4 = Inr (k + 1 + 1 + 1 + 1)" "add32 k 5 = Inr (k + 1 + 1 + 1 + 1 + 1)"
    using k by (simp_all add: add32_def int32_ok)
  from assign_written [OF w, of "i * n + j" "Inr k" "row_col (Inr i) n j"] obtain b1 where
    1: "assign (Inr k) (row_col (Inr i) n j) b = Inr b1" "written L V (nat (k + 1)) b1"
    using k nn in0 le v a by auto
  from assign_written [OF 1(2), of "i * n + j + 1" "add32 k 1" "plus_one (row_col (Inr i) n j)"]
  obtain b2 where
    2: "assign (add32 k 1) (plus_one (row_col (Inr i) n j)) b1 = Inr b2"
       "written L V (nat (k + 1 + 1)) b2"
    using k nn in0 le v b p by auto
  from assign_written [OF 2(2), of "(i + 1) * n + j" "add32 k 2" "row_col (add32 i 1) n j"]
  obtain b3 where
    3: "assign (add32 k 2) (row_col (add32 i 1) n j) b2 = Inr b3"
       "written L V (nat (k + 1 + 1 + 1)) b3"
    using k nn in0 le v c p by auto
  from assign_written [OF 3(2), of "(i + 1) * n + j" "add32 k 3" "row_col (add32 i 1) n j"]
  obtain b4 where
    4: "assign (add32 k 3) (row_col (add32 i 1) n j) b3 = Inr b4"
       "written L V (nat (k + 1 + 1 + 1 + 1)) b4"
    using k nn in0 le v c p by auto
  from assign_written [OF 4(2), of "i * n + j + 1" "add32 k 4" "plus_one (row_col (Inr i) n j)"]
  obtain b5 where
    5: "assign (add32 k 4) (plus_one (row_col (Inr i) n j)) b4 = Inr b5"
       "written L V (nat (k + 1 + 1 + 1 + 1 + 1)) b5"
    using k nn in0 le v b p by auto
  from assign_written [OF 5(2), of "(i + 1) * n + j + 1" "add32 k 5"
      "plus_one (row_col (add32 i 1) n j)"]
  obtain b6 where
    6: "assign (add32 k 5) (plus_one (row_col (add32 i 1) n j)) b5 = Inr b6"
       "written L V (nat (k + 1 + 1 + 1 + 1 + 1 + 1)) b6"
    using k nn in0 le v d p by auto
  have e: "k + 1 + 1 + 1 + 1 + 1 + 1 = k + 6" by simp
  have "store_quad n i j k b = Inr b6"
    unfolding store_quad_def by (simp add: 1 2 3 4 5 6 and_then_def)
  with 6(2) show ?thesis unfolding e by blast
qed

lemma row_loop_written:
  "written L V (nat k) b \<Longrightarrow> 0 \<le> k \<Longrightarrow> 0 \<le> i \<Longrightarrow> 0 \<le> j \<Longrightarrow> j \<le> n - 1 \<Longrightarrow>
   k + 6 * (n - 1 - j) \<le> int L \<Longrightarrow> int L \<le> 2147483647 \<Longrightarrow>
   (i + 1) * n + n \<le> V \<Longrightarrow> V \<le> 2147483647 \<Longrightarrow>
   \<exists>b'. row_loop n i j k b = Inr (k + 6 * (n - 1 - j), b')
      \<and> written L V (nat (k + 6 * (n - 1 - j))) b'"
proof (induction n i j k b rule: row_loop.induct)
  case (1 n i j k b)
  from "1.prems"(4,5) have n1: "1 \<le> n" by simp
  have nV: "n \<le> V"
  proof -
    have "0 \<le> (i + 1) * n" using "1.prems"(3) n1 by simp
    with "1.prems"(8) show ?thesis by simp
  qed
  have s1: "sub32 n 1 = Inr (n - 1)"
    using n1 nV "1.prems"(9) by (simp add: sub32_def int32_ok)
  show ?case
  proof (cases "j < n - 1")
    case False
    with "1.prems"(5) have "n - 1 - j = 0" by simp
    with False "1.prems"(1) s1 show ?thesis by (subst row_loop.simps) simp
  next
    case True
    from "1.prems"(6) True have k6: "k + 6 \<le> int L" by simp
    from True "1.prems" have v: "(i + 1) * n + j + 1 < V" by linarith
    from store_quad_written [OF "1.prems"(1,2) k6 "1.prems"(7,3,4) n1 v "1.prems"(9)] obtain b1 where
      b1: "store_quad n i j k b = Inr b1" "written L V (nat (k + 6)) b1" by blast
    have a6: "add32 k 6 = Inr (k + 6)"
      using "1.prems"(2,7) k6 by (simp add: add32_def int32_ok)
    have j1: "add32 j 1 = Inr (j + 1)"
      using "1.prems"(4,9) True nV by (simp add: add32_def int32_ok)
    from "1.prems"(2) have k0: "0 \<le> k + 6" by simp
    from "1.prems"(4) have j0: "0 \<le> j + 1" by simp
    from True have jn: "j + 1 \<le> n - 1" by simp
    from "1.prems"(6) have k': "k + 6 + 6 * (n - 1 - (j + 1)) \<le> int L" by simp
    from "1.IH" [OF s1 True b1(1) a6 j1 b1(2) k0 "1.prems"(3) j0 jn k' "1.prems"(7,8,9)]
    obtain b' where
      r: "row_loop n i (j + 1) (k + 6) b1 = Inr (k + 6 + 6 * (n - 1 - (j + 1)), b')"
         "written L V (nat (k + 6 + 6 * (n - 1 - (j + 1)))) b'" by blast
    have eq: "k + 6 + 6 * (n - 1 - (j + 1)) = k + 6 * (n - 1 - j)" by simp
    have u: "row_loop n i j k b = row_loop n i (j + 1) (k + 6) b1"
      using True b1(1) s1 a6 j1 by (subst row_loop.simps) simp
    show ?thesis unfolding u using r [unfolded eq] by blast
  qed
qed

lemma grid_loop_written:
  "written L V (nat k) b \<Longrightarrow> 0 \<le> k \<Longrightarrow> 0 \<le> i \<Longrightarrow> i \<le> m - 1 \<Longrightarrow> 1 \<le> n \<Longrightarrow>
   k + 6 * (n - 1) * (m - 1 - i) \<le> int L \<Longrightarrow> int L \<le> 2147483647 \<Longrightarrow>
   m * n \<le> V \<Longrightarrow> V \<le> 2147483647 \<Longrightarrow>
   \<exists>b'. grid_loop m n i k b = Inr (k + 6 * (n - 1) * (m - 1 - i), b')
      \<and> written L V (nat (k + 6 * (n - 1) * (m - 1 - i))) b'"
proof (induction m n i k b rule: grid_loop.induct)
  case (1 m n i k b)
  from "1.prems"(3,4) have m1: "1 \<le> m" by simp
  have mV: "m \<le> V"
  proof -
    have "m * 1 \<le> m * n" using m1 "1.prems"(5) by (intro mult_left_mono) simp_all
    with "1.prems"(8) show ?thesis by simp
  qed
  have s1: "sub32 m 1 = Inr (m - 1)"
    using m1 mV "1.prems"(9) by (simp add: sub32_def int32_ok)
  show ?case
  proof (cases "i < m - 1")
    case False
    with "1.prems"(4) have "m - 1 - i = 0" by simp
    with False "1.prems"(1) s1 show ?thesis by (subst grid_loop.simps) simp
  next
    case True
    let ?r = "6 * (n - 1)"
    have r0: "0 \<le> ?r" using "1.prems"(5) by simp
    have rest: "0 \<le> ?r * (m - 1 - (i + 1))" using r0 True by simp
    have split: "?r * (m - 1 - i) = ?r + ?r * (m - 1 - (i + 1))" by (simp add: algebra_simps)
    from "1.prems"(6) rest have kr: "k + 6 * (n - 1 - 0) \<le> int L" unfolding split by simp
    have "(i + 2) * n \<le> m * n" using True "1.prems"(5) by (intro mult_right_mono) simp_all
    with "1.prems"(8) have v: "(i + 1) * n + n \<le> V" by (simp add: algebra_simps)
    have z: "(0 :: int) \<le> 0" by simp
    from "1.prems"(5) have n0: "0 \<le> n - 1" by simp
    from row_loop_written [OF "1.prems"(1,2,3) z n0 kr "1.prems"(7) v "1.prems"(9)] obtain b1 where
      b1: "row_loop n i 0 k b = Inr (k + ?r, b1)" "written L V (nat (k + ?r)) b1" by auto
    have i1: "add32 i 1 = Inr (i + 1)"
      using "1.prems"(3,9) True mV by (simp add: add32_def int32_ok)
    from "1.prems"(2) r0 have k0: "0 \<le> k + ?r" by simp
    from "1.prems"(3) have i0: "0 \<le> i + 1" by simp
    from True have im: "i + 1 \<le> m - 1" by simp
    from "1.prems"(6) have k': "k + ?r + ?r * (m - 1 - (i + 1)) \<le> int L"
      unfolding split by simp
    from "1.IH" [OF s1 True b1(1) refl i1 b1(2) k0 i0 im "1.prems"(5) k' "1.prems"(7,8,9)]
    obtain b' where
      r: "grid_loop m n (i + 1) (k + ?r) b1 = Inr (k + ?r + ?r * (m - 1 - (i + 1)), b')"
         "written L V (nat (k + ?r + ?r * (m - 1 - (i + 1)))) b'" by blast
    have eq: "k + ?r + ?r * (m - 1 - (i + 1)) = k + ?r * (m - 1 - i)" unfolding split by simp
    have u: "grid_loop m n i k b = grid_loop m n (i + 1) (k + ?r) b1"
      using True b1(1) s1 i1 by (subst grid_loop.simps) simp
    show ?thesis unfolding u using r [unfolded eq] by blast
  qed
qed

lemma uint_16_vertex: "0 \<le> v \<Longrightarrow> v < 0xffff \<Longrightarrow> uint (word_of_int v :: 16 word) = v"
  by (simp add: uint_word_of_int take_bit_int_eq_self)

lemma quads_ge:
  assumes "2 \<le> m" and "2 \<le> (n :: int)"
  shows "m - 1 \<le> (m - 1) * (n - 1)" and "n - 1 \<le> (m - 1) * (n - 1)"
proof -
  have "(m - 1) * 1 \<le> (m - 1) * (n - 1)" using assms by (intro mult_left_mono) simp_all
  then show "m - 1 \<le> (m - 1) * (n - 1)" by simp
  have "1 * (n - 1) \<le> (m - 1) * (n - 1)" using assms by (intro mult_right_mono) simp_all
  then show "n - 1 \<le> (m - 1) * (n - 1)" by simp
qed

lemma vertices_le_indices:
  assumes "2 \<le> m" and "2 \<le> (n :: int)"
  shows "m * n \<le> 6 * (m - 1) * (n - 1)"
proof -
  define P where "P = (m - 1) * (n - 1)"
  from quads_ge [OF assms] have "m - 1 \<le> P" "n - 1 \<le> P" by (simp_all add: P_def)
  moreover have "m * n = P + (m - 1) + (n - 1) + 1" by (simp add: P_def algebra_simps)
  moreover have "6 * (m - 1) * (n - 1) = 6 * P" by (simp add: P_def)
  ultimately show ?thesis using assms by linarith
qed

lemma indices_fit:
  assumes "2 \<le> m" and "2 \<le> (n :: int)" and "m * n < 65535"
  shows "6 * (m - 1) * (n - 1) \<le> 2147483647"
proof -
  define P where "P = (m - 1) * (n - 1)"
  have "m * n = P + (m - 1) + (n - 1) + 1" by (simp add: P_def algebra_simps)
  with assms have "P < 65535" by linarith
  moreover have "6 * (m - 1) * (n - 1) = 6 * P" by (simp add: P_def)
  ultimately show ?thesis by linarith
qed

text \<open>
  Claim C10, with the bound it needs. For a wave grid of \<open>m \<ge> 2\<close> rows and \<open>n \<ge> 2\<close>
  columns, with \<open>2 (m - 1) (n - 1)\<close> triangles and \<open>m n\<close> vertices, whose vertex count is
  below \<open>0xffff\<close> or whose index count \<open>6 (m - 1) (n - 1)\<close> is at most 2147483647,
  the largest 32-bit \<^verbatim>\<open>int\<close>: no 32-bit operation of BuildWavesGeometry overflows, the vector has
  \<open>6 (m - 1) (n - 1)\<close> elements, the loop returns without a write outside the vector and
  writes the positions \<open>0, 1, ..., 6 (m - 1) (n - 1) - 1\<close>, each once and in order, and
  every value written is a vertex number from 0 to below \<open>m n\<close>. When the vertex count is
  below \<open>0xffff\<close>, the assertion holds too and every stored 16-bit index is the value
  written, with no truncation.
\<close>

theorem wave_indices_written:
  assumes m: "2 \<le> m" and n: "2 \<le> n"
    and w: "RowCount mWaves = m" "ColumnCount mWaves = n" "VertexCount mWaves = m * n"
      "TriangleCount mWaves = 2 * (m - 1) * (n - 1)"
    and fit: "m * n < 0xffff \<or> 6 * (m - 1) * (n - 1) \<le> 2147483647"
  shows "\<exists>b. BuildWavesGeometry_indices False mWaves = Inr b
      \<and> length (fst b) = nat (6 * (m - 1) * (n - 1))
      \<and> map fst (snd b) = [0..<nat (6 * (m - 1) * (n - 1))]
      \<and> (\<forall>x \<in> set (snd b). 0 \<le> snd x \<and> snd x < m * n \<and> fst b ! fst x = word_of_int (snd x))
      \<and> (m * n < 0xffff \<longrightarrow> BuildWavesGeometry_indices True mWaves = Inr b
            \<and> (\<forall>x \<in> set (snd b). uint (fst b ! fst x) = snd x))"
proof -
  let ?N = "6 * (m - 1) * (n - 1)"
  let ?L = "nat ?N"
  let ?b0 = "(replicate ?L (0 :: 16 word), [] :: (nat \<times> int) list)"
  from fit indices_fit [OF m n] have N: "?N \<le> 2147483647" by auto
  have N0: "0 \<le> ?N" using m n by simp
  have c: "mul32 3 (TriangleCount mWaves) = Inr ?N"
  proof -
    have "3 * TriangleCount mWaves = ?N" using w(4) by simp
    with N N0 show ?thesis by (simp add: mul32_def int32_ok)
  qed
  have V: "m * n \<le> 2147483647" using vertices_le_indices [OF m n] N by simp
  have iL: "int ?L = ?N" using N0 by simp
  have w0: "written ?L (m * n) (nat 0) ?b0" by (simp add: written_def)
  have k: "0 + 6 * (n - 1) * (m - 1 - 0) \<le> int ?L" unfolding iL by (simp add: algebra_simps)
  have L: "int ?L \<le> 2147483647" unfolding iL by (rule N)
  have z: "(0 :: int) \<le> 0" by simp
  have m0: "0 \<le> m - 1" and n1: "1 \<le> n" using m n by simp_all
  have e: "0 + 6 * (n - 1) * (m - 1 - 0) = ?N" by (simp add: algebra_simps)
  from grid_loop_written [OF w0 z z m0 n1 k L order_refl V] obtain b where
    b: "grid_loop m n 0 0 ?b0 = Inr (?N, b)" "written ?L (m * n) ?L b"
    unfolding e by blast
  from b(2) have len: "length (fst b) = ?L" and pos: "map fst (snd b) = [0..<?L]"
    and vals: "\<forall>x \<in> set (snd b). 0 \<le> snd x \<and> snd x < m * n \<and> fst b ! fst x = word_of_int (snd x)"
    by (simp_all add: written_def list_all_iff)
  have rel: "BuildWavesGeometry_indices False mWaves = Inr b"
    using c N0 w b(1) by (simp add: BuildWavesGeometry_indices_def)
  have dbg: "BuildWavesGeometry_indices True mWaves = Inr b
      \<and> (\<forall>x \<in> set (snd b). uint (fst b ! fst x) = snd x)"
    if "m * n < 0xffff"
  proof -
    have "BuildWavesGeometry_indices True mWaves = Inr b"
      using that c N0 w b(1) by (simp add: BuildWavesGeometry_indices_def)
    moreover have "uint (fst b ! fst x) = snd x" if "x \<in> set (snd b)" for x
    proof -
      from vals that have "0 \<le> snd x" "snd x < m * n" "fst b ! fst x = word_of_int (snd x)" by auto
      with \<open>m * n < 0xffff\<close> show ?thesis by (simp add: uint_16_vertex)
    qed
    ultimately show ?thesis by blast
  qed
  from rel len pos vals dbg show ?thesis by blast
qed

theorem wave_indices_written_witness:
  "(2 :: int) \<le> 3
   \<and> BuildWavesGeometry_indices False (new_Waves 3 3)
      = Inr ([0, 1, 3, 3, 1, 4, 1, 2, 4, 4, 2, 5, 3, 4, 6, 6, 4, 7, 4, 5, 7, 7, 5, 8],
             [(0, 0), (1, 1), (2, 3), (3, 3), (4, 1), (5, 4), (6, 1), (7, 2), (8, 4), (9, 4),
              (10, 2), (11, 5), (12, 3), (13, 4), (14, 6), (15, 6), (16, 4), (17, 7), (18, 4),
              (19, 5), (20, 7), (21, 7), (22, 5), (23, 8)])
   \<and> BuildWavesGeometry_indices True (new_Waves 3 3)
      = BuildWavesGeometry_indices False (new_Waves 3 3)"
proof -
  have h: "(2 :: int) \<le> 3" by simp
  have w: "RowCount (new_Waves 3 3) = 3" "ColumnCount (new_Waves 3 3) = 3"
    "VertexCount (new_Waves 3 3) = 3 * 3" "TriangleCount (new_Waves 3 3) = 2 * (3 - 1) * (3 - 1)"
    by (simp_all add: new_Waves_def)
  have f: "(3 :: int) * 3 < 0xffff \<or> (6 :: int) * (3 - 1) * (3 - 1) \<le> 2147483647" by simp
  from wave_indices_written [OF h h w f] obtain b where
    b: "BuildWavesGeometry_indices False (new_Waves 3 3) = Inr b"
       "BuildWavesGeometry_indices True (new_Waves 3 3) = Inr b" by auto
  have "BuildWavesGeometry_indices False (new_Waves 3 3)
      = Inr ([0, 1, 3, 3, 1, 4, 1, 2, 4, 4, 2, 5, 3, 4, 6, 6, 4, 7, 4, 5, 7, 7, 5, 8],
             [(0, 0), (1, 1), (2, 3), (3, 3), (4, 1), (5, 4), (6, 1), (7, 2), (8, 4), (9, 4),
              (10, 2), (11, 5), (12, 3), (13, 4), (14, 6), (15, 6), (16, 4), (17, 7), (18, 4),
              (19, 5), (20, 7), (21, 7), (22, 5), (23, 8)])"
    by code_simp
  with h b show ?thesis by simp
qed

text \<open>
  Without the bound the claim fails. A grid of 18921 rows and 18921 columns has
  358004241 vertices and 715932800 triangles, both 32-bit values, and
  \<open>3 * 715932800 = 2147798400\<close> is above the largest \<^verbatim>\<open>int\<close>, 2147483647: the size of
  the vector at line 1182 overflows before anything is written, in a debug build too,
  where the assertion comes after it.
\<close>

theorem wave_indices_overflow_counterexample:
  "(2 :: int) \<le> 18921
   \<and> VertexCount large_grid = RowCount large_grid * ColumnCount large_grid
   \<and> TriangleCount large_grid = 2 * (RowCount large_grid - 1) * (ColumnCount large_grid - 1)
   \<and> TriangleCount large_grid \<le> 2147483647
   \<and> (2147483647 :: int) < 3 * TriangleCount large_grid
   \<and> BuildWavesGeometry_indices False large_grid = Inl Overflow
   \<and> BuildWavesGeometry_indices True large_grid = Inl Overflow"
  by (simp add: BuildWavesGeometry_indices_def large_grid_def mul32_def int32_def)

end
